theory Spec2Isabelle
  imports Main "HOL-Library.Word"
begin

unbundle bit_operations_syntax

section \<open>Data model (server/api/models/vlan.go)\<close>

text \<open>
  Go's \<^verbatim>\<open>int\<close> is a 64-bit two's-complement integer on the platforms the
  service is built for; it is modelled as a 64-bit word: \<open>+\<close> wraps around,
  comparisons are the signed ones (\<open><s\<close>, \<open>\<le>s\<close>) and \<open>sint\<close> reads the value.
  A \<^verbatim>\<open>time.Time\<close> is modelled as an instant on an integer time line; the
  result of \<^verbatim>\<open>time.Now()\<close> is a parameter \<open>now\<close> of the operations that call it.
  A Go \<^verbatim>\<open>string\<close> is a sequence of bytes, a \<open>string\<close> here.
\<close>

type_synonym go_int = "64 word"
type_synonym time = int

record VLANInput =
  Name :: string
  VlanID :: go_int
  Subnet :: string
  Gateway :: string
  Status :: string

record VLANModel =
  ID :: go_int
  Name :: string
  VlanID :: go_int
  Subnet :: string
  Gateway :: string
  Status :: string
  CreatedAt :: time
  UpdatedAt :: time

record VLANData =
  VLANs :: "VLANModel list"

section \<open>Storage engine (server/api/storage/storage.go)\<close>

text \<open>
  \<open>ErrVLANNotFound\<close> and \<open>ErrVLANExists\<close> are the two sentinel errors of the package.
  \<open>ErrStorageIO\<close> stands for every wrapped error of \<^verbatim>\<open>loadData\<close> and
  \<^verbatim>\<open>saveData\<close> (open, read, unmarshal, marshal, write). \<open>PanicMakeslice\<close> is not
  an error value of the program: it is the run-time panic
  \<^verbatim>\<open>makeslice: cap out of range\<close> that \<^verbatim>\<open>make([]T, 0, n)\<close> raises for \<open>n < 0\<close>.
\<close>

datatype error = ErrVLANNotFound | ErrVLANExists | ErrStorageIO | PanicMakeslice

text \<open>
  The backing file. \<open>contents = None\<close> is a file that cannot be opened, read or
  unmarshalled; \<open>contents = Some d\<close> is a file whose JSON text unmarshals to \<open>d\<close>
  (marshalling followed by unmarshalling is taken to give the data back).
  \<open>writable\<close> tells whether \<^verbatim>\<open>os.WriteFile\<close> succeeds; a failed write is taken
  to leave the file as it was.
\<close>

record fs =
  contents :: "VLANData option"
  writable :: bool

definition loadData :: "fs \<Rightarrow> error + VLANData" where
  "loadData s = (case contents s of None \<Rightarrow> Inl ErrStorageIO | Some vlanData \<Rightarrow> Inr vlanData)"

definition saveData :: "VLANData \<Rightarrow> fs \<Rightarrow> error + fs" where
  "saveData data s = (if writable s then Inr (s\<lparr>contents := Some data\<rparr>) else Inl ErrStorageIO)"

definition GetAll :: "fs \<Rightarrow> error + VLANModel list" where
  "GetAll s = (case loadData s of Inl err \<Rightarrow> Inl err | Inr data \<Rightarrow> Inr (VLANs data))"

definition GetByID :: "go_int \<Rightarrow> fs \<Rightarrow> error + VLANModel" where
  "GetByID id' s =
     (case loadData s of Inl err \<Rightarrow> Inl err
      | Inr data \<Rightarrow>
          (case find (\<lambda>vlan. ID vlan = id') (VLANs data) of
             Some vlan \<Rightarrow> Inr vlan
           | None \<Rightarrow> Inl ErrVLANNotFound))"

text \<open>The loop of \<^verbatim>\<open>Create\<close> that computes \<^verbatim>\<open>maxID\<close>, starting from 0.\<close>

definition maxID_loop :: "VLANModel list \<Rightarrow> go_int" where
  "maxID_loop vlans = fold (\<lambda>vlan maxID. if maxID <s ID vlan then ID vlan else maxID) vlans 0"

definition newID_of :: "VLANModel list \<Rightarrow> go_int" where
  "newID_of vlans = (if length vlans > 0 then maxID_loop vlans + 1 else 1)"

text \<open>
  What \<^verbatim>\<open>Create\<close> does between \<^verbatim>\<open>loadData\<close> and \<^verbatim>\<open>saveData\<close>: the scan for
  a \<^verbatim>\<open>VlanID\<close> collision, the new ID, the new record and the append.
\<close>

definition Create_body :: "VLANInput \<Rightarrow> time \<Rightarrow> VLANData \<Rightarrow> error + (VLANData \<times> VLANModel)" where
  "Create_body input now data =
     (if list_ex (\<lambda>vlan. VlanID vlan = VLANInput.VlanID input) (VLANs data)
      then Inl ErrVLANExists
      else
        let newID = newID_of (VLANs data);
            newVLAN = \<lparr>ID = newID,
                       Name = VLANInput.Name input,
                       VlanID = VLANInput.VlanID input,
                       Subnet = VLANInput.Subnet input,
                       Gateway = VLANInput.Gateway input,
                       Status = VLANInput.Status input,
                       CreatedAt = now,
                       UpdatedAt = now\<rparr>
        in Inr (data\<lparr>VLANs := VLANs data @ [newVLAN]\<rparr>, newVLAN))"

definition Create :: "VLANInput \<Rightarrow> time \<Rightarrow> fs \<Rightarrow> (error + VLANModel) \<times> fs" where
  "Create input now s =
     (case loadData s of Inl err \<Rightarrow> (Inl err, s)
      | Inr data \<Rightarrow>
          (case Create_body input now data of Inl err \<Rightarrow> (Inl err, s)
           | Inr (data', newVLAN) \<Rightarrow>
               (case saveData data' s of Inl err \<Rightarrow> (Inl err, s)
                | Inr s' \<Rightarrow> (Inr newVLAN, s'))))"

text \<open>The index of the first record with the given ID (the outer loop of \<^verbatim>\<open>Update\<close>).\<close>

fun index_of_ID :: "go_int \<Rightarrow> VLANModel list \<Rightarrow> nat option" where
  "index_of_ID id' [] = None"
| "index_of_ID id' (vlan # vlans) =
     (if ID vlan = id' then Some 0 else map_option Suc (index_of_ID id' vlans))"

definition Update_body :: "go_int \<Rightarrow> VLANInput \<Rightarrow> time \<Rightarrow> VLANData \<Rightarrow> error + (VLANData \<times> VLANModel)" where
  "Update_body id' input now data =
     (case index_of_ID id' (VLANs data) of
        None \<Rightarrow> Inl ErrVLANNotFound
      | Some i \<Rightarrow>
          let vlan = VLANs data ! i in
          if VlanID vlan \<noteq> VLANInput.VlanID input \<and>
             list_ex (\<lambda>v. ID v \<noteq> id' \<and> VlanID v = VLANInput.VlanID input) (VLANs data)
          then Inl ErrVLANExists
          else
            let vlan' = vlan\<lparr>Name := VLANInput.Name input,
                             VlanID := VLANInput.VlanID input,
                             Subnet := VLANInput.Subnet input,
                             Gateway := VLANInput.Gateway input,
                             Status := VLANInput.Status input,
                             UpdatedAt := now\<rparr>
            in Inr (data\<lparr>VLANs := (VLANs data)[i := vlan']\<rparr>, vlan'))"

definition Update :: "go_int \<Rightarrow> VLANInput \<Rightarrow> time \<Rightarrow> fs \<Rightarrow> (error + VLANModel) \<times> fs" where
  "Update id' input now s =
     (case loadData s of Inl err \<Rightarrow> (Inl err, s)
      | Inr data \<Rightarrow>
          (case Update_body id' input now data of Inl err \<Rightarrow> (Inl err, s)
           | Inr (data', vlan') \<Rightarrow>
               (case saveData data' s of Inl err \<Rightarrow> (Inl err, s)
                | Inr s' \<Rightarrow> (Inr vlan', s'))))"

text \<open>
  \<^verbatim>\<open>Delete\<close> first allocates \<^verbatim>\<open>make([]models.VLANModel, 0, len(data.VLANs)-1)\<close>:
  with no record the capacity is \<open>-1\<close> and the allocation panics, before the loop
  and before the \<^verbatim>\<open>found\<close> test. The loop keeps every record whose ID differs.
\<close>

definition Delete_body :: "go_int \<Rightarrow> VLANData \<Rightarrow> error + VLANData" where
  "Delete_body id' data =
     (if length (VLANs data) = 0 then Inl PanicMakeslice
      else
        let found = list_ex (\<lambda>vlan. ID vlan = id') (VLANs data);
            newVLANs = filter (\<lambda>vlan. ID vlan \<noteq> id') (VLANs data)
        in if \<not> found then Inl ErrVLANNotFound
           else Inr (data\<lparr>VLANs := newVLANs\<rparr>))"

definition Delete :: "go_int \<Rightarrow> fs \<Rightarrow> error option \<times> fs" where
  "Delete id' s =
     (case loadData s of Inl err \<Rightarrow> (Some err, s)
      | Inr data \<Rightarrow>
          (case Delete_body id' data of Inl err \<Rightarrow> (Some err, s)
           | Inr data' \<Rightarrow>
               (case saveData data' s of Inl err \<Rightarrow> (Some err, s)
                | Inr s' \<Rightarrow> (None, s'))))"

section \<open>Go library functions used by the validation and the handlers\<close>

text \<open>
  \<^verbatim>\<open>strings.Split\<close>, \<^verbatim>\<open>strings.TrimPrefix\<close>, \<^verbatim>\<open>strconv.Atoi\<close>, \<^verbatim>\<open>regexp\<close>,
  \<^verbatim>\<open>net.ParseIP\<close> and \<^verbatim>\<open>net.ParseCIDR\<close> belong to the Go standard library, not to
  the repository. They are modelled after the Go 1.21 library, the version the
  Dockerfile and the CI workflow of the repository build with.
\<close>

definition is_digit :: "char \<Rightarrow> bool" where
  "is_digit c = (48 \<le> (of_char c :: nat) \<and> (of_char c :: nat) \<le> 57)"

definition digit_val :: "char \<Rightarrow> nat" where
  "digit_val c = of_char c - 48"

text \<open>The value of a string of decimal digits, most significant digit first.\<close>

definition dec :: "string \<Rightarrow> nat" where
  "dec ds = foldl (\<lambda>n c. n * 10 + digit_val c) 0 ds"

text \<open>\<^verbatim>\<open>strings.Split(s, sep)\<close> for a separator of one byte.\<close>

fun Split :: "string \<Rightarrow> char \<Rightarrow> string list" where
  "Split [] sep = [[]]"
| "Split (c # cs) sep =
     (if c = sep then [] # Split cs sep
      else (case Split cs sep of [] \<Rightarrow> [[c]] | p # ps \<Rightarrow> (c # p) # ps))"

text \<open>\<^verbatim>\<open>strings.TrimPrefix(s, "/")\<close>.\<close>

definition TrimPrefix_slash :: "string \<Rightarrow> string" where
  "TrimPrefix_slash s = (case s of [] \<Rightarrow> [] | c # cs \<Rightarrow> if c = CHR ''/'' then cs else s)"

text \<open>
  \<^verbatim>\<open>strconv.Atoi\<close>: an optional sign, then at least one decimal digit and nothing
  else; a value that does not fit the 64-bit \<^verbatim>\<open>int\<close> is an error
  (\<^verbatim>\<open>ErrRange\<close>), as is any other text (\<^verbatim>\<open>ErrSyntax\<close>). \<open>None\<close> is the error.
\<close>

definition Atoi :: "string \<Rightarrow> go_int option" where
  "Atoi s =
     (let neg = (s \<noteq> [] \<and> hd s = CHR ''-'');
          ds = (if s \<noteq> [] \<and> (hd s = CHR ''-'' \<or> hd s = CHR ''+'') then tl s else s)
      in if ds = [] \<or> \<not> list_all is_digit ds then None
         else if neg then (if dec ds \<le> 2^63 then Some (- of_nat (dec ds)) else None)
         else (if dec ds < 2^63 then Some (of_nat (dec ds)) else None))"

subsection \<open>Regular expressions\<close>

text \<open>
  A regular expression is modelled by the function that, given a text, returns every
  remainder the text can have after a prefix that matches. The combinators are the
  ones the pattern of \<^verbatim>\<open>isValidIP\<close> uses: \<^verbatim>\<open>\d\<close> (an ASCII digit in Go), a literal
  byte, concatenation, \<^verbatim>\<open>r{n}\<close> and \<^verbatim>\<open>r{m,n}\<close>. \<open>MatchString\<close> is for a pattern
  anchored by \<^verbatim>\<open>^\<close> and \<^verbatim>\<open>$\<close>; without the multi-line flag Go's \<^verbatim>\<open>$\<close> matches at the
  end of the text only.
\<close>

type_synonym regex = "string \<Rightarrow> string list"

definition re_digit :: regex where
  "re_digit s = (case s of [] \<Rightarrow> [] | c # cs \<Rightarrow> if is_digit c then [cs] else [])"

definition re_lit :: "char \<Rightarrow> regex" where
  "re_lit a s = (case s of [] \<Rightarrow> [] | c # cs \<Rightarrow> if c = a then [cs] else [])"

definition re_seq :: "regex \<Rightarrow> regex \<Rightarrow> regex" where
  "re_seq r1 r2 s = concat (map r2 (r1 s))"

primrec re_times :: "nat \<Rightarrow> regex \<Rightarrow> regex" where
  "re_times 0 r s = [s]"
| "re_times (Suc n) r s = concat (map (re_times n r) (r s))"

definition re_range :: "nat \<Rightarrow> nat \<Rightarrow> regex \<Rightarrow> regex" where
  "re_range m n r s = concat (map (\<lambda>k. re_times k r s) [m..<Suc n])"

definition MatchString :: "regex \<Rightarrow> string \<Rightarrow> bool" where
  "MatchString r s = ([] \<in> set (r s))"

subsection \<open>IP addresses\<close>

text \<open>
  \<^verbatim>\<open>dtoi\<close> of package \<^verbatim>\<open>net\<close>: the value of the longest prefix of decimal digits,
  the number of bytes read, and whether there was a digit and the value stayed
  below \<^verbatim>\<open>0xFFFFFF\<close>.
\<close>

fun dtoi_loop :: "nat \<Rightarrow> nat \<Rightarrow> string \<Rightarrow> nat \<times> nat \<times> bool" where
  "dtoi_loop n i [] = (if i = 0 then (0, 0, False) else (n, i, True))"
| "dtoi_loop n i (c # cs) =
     (if is_digit c
      then (let n' = n * 10 + digit_val c
            in if n' \<ge> 0xFFFFFF then (0xFFFFFF, i, False) else dtoi_loop n' (i + 1) cs)
      else (if i = 0 then (0, 0, False) else (n, i, True)))"

definition dtoi :: "string \<Rightarrow> nat \<times> nat \<times> bool" where
  "dtoi s = dtoi_loop 0 0 s"

text \<open>
  The IPv4 parser accepts exactly four fields separated by dots, each a non-empty
  string of decimal digits of value at most 255, without a leading zero unless the
  field is \<^verbatim>\<open>0\<close> itself (Go has rejected leading zeros since version 1.17).
\<close>

definition octet_ok :: "string \<Rightarrow> bool" where
  "octet_ok g = (g \<noteq> [] \<and> list_all is_digit g \<and> (length g > 1 \<longrightarrow> hd g \<noteq> CHR ''0'') \<and> dec g \<le> 255)"

definition parseIPv4 :: "string \<Rightarrow> bool" where
  "parseIPv4 s = (length (Split s CHR ''.'') = 4 \<and> list_all octet_ok (Split s CHR ''.''))"

definition is_hex :: "char \<Rightarrow> bool" where
  "is_hex c = (is_digit c \<or> (97 \<le> (of_char c :: nat) \<and> (of_char c :: nat) \<le> 102)
                          \<or> (65 \<le> (of_char c :: nat) \<and> (of_char c :: nat) \<le> 70))"

definition hex_val :: "char \<Rightarrow> nat" where
  "hex_val c = (if is_digit c then of_char c - 48
                else if 97 \<le> (of_char c :: nat) then of_char c - 87 else of_char c - 55)"

text \<open>
  The inner loop of the IPv6 parser: it reads hexadecimal digits into \<open>acc\<close> and
  fails on a fifth digit or a value above \<^verbatim>\<open>0xFFFF\<close>; it returns the number of
  digits read and the rest of the text.
\<close>

fun hex_scan :: "nat \<Rightarrow> nat \<Rightarrow> string \<Rightarrow> (nat \<times> string) option" where
  "hex_scan off acc [] = Some (off, [])"
| "hex_scan off acc (c # cs) =
     (if is_hex c
      then (let acc' = acc * 16 + hex_val c
            in if off > 3 then None
               else if acc' > 0xFFFF then None
               else hex_scan (off + 1) acc' cs)
      else Some (off, c # cs))"

text \<open>
  The outer loop of the IPv6 parser, \<^verbatim>\<open>for i < 16\<close>: \<open>i\<close> counts the bytes of the
  address filled so far, \<open>ellipsis\<close> tells whether \<^verbatim>\<open>::\<close> has been seen. The result is
  the state at the exit of the loop, or \<open>None\<close> where the parser returns an error.
\<close>

function v6_loop :: "nat \<Rightarrow> bool \<Rightarrow> string \<Rightarrow> (nat \<times> bool \<times> string) option" where
  "v6_loop i ellipsis s =
     (if \<not> i < 16 then Some (i, ellipsis, s)
      else
        (case hex_scan 0 0 s of
           None \<Rightarrow> None
         | Some (off, rest) \<Rightarrow>
             if off = 0 then None
             else if rest \<noteq> [] \<and> hd rest = CHR ''.''
             then (if \<not> ellipsis \<and> i \<noteq> 12 then None
                   else if i + 4 > 16 then None
                   else if \<not> parseIPv4 s then None
                   else Some (i + 4, ellipsis, []))
             else if rest = [] then Some (i + 2, ellipsis, [])
             else if hd rest \<noteq> CHR '':'' then None
             else if length rest = 1 then None
             else if hd (tl rest) = CHR '':''
             then (if ellipsis then None
                   else if tl (tl rest) = [] then Some (i + 2, True, [])
                   else v6_loop (i + 2) True (tl (tl rest)))
             else v6_loop (i + 2) ellipsis (tl rest)))"
  by pat_completeness auto
termination
  by (relation "measure (\<lambda>(i, ellipsis, s). 16 - i)") auto

text \<open>
  The IPv6 parser on a text without zone: a leading \<^verbatim>\<open>::\<close>, the loop, and the final
  tests (the whole text was read; fewer than 16 bytes need a \<^verbatim>\<open>::\<close> to expand; 16
  bytes allow none).
\<close>

definition parseIPv6 :: "string \<Rightarrow> bool" where
  "parseIPv6 s =
     (let lead = (length s \<ge> 2 \<and> s ! 0 = CHR '':'' \<and> s ! 1 = CHR '':'');
          s' = (if lead then drop 2 s else s)
      in if lead \<and> s' = [] then True
         else (case v6_loop 0 lead s' of
                 None \<Rightarrow> False
               | Some (i, ellipsis, rest) \<Rightarrow>
                   rest = [] \<and> (if i < 16 then ellipsis else \<not> ellipsis)))"

datatype ip_family = IPv4 | IPv6

text \<open>
  \<^verbatim>\<open>netip.ParseAddr\<close> followed by the test that the zone is empty, as \<^verbatim>\<open>net.ParseIP\<close>
  and \<^verbatim>\<open>net.ParseCIDR\<close> call it: the first of \<^verbatim>\<open>.\<close>, \<^verbatim>\<open>:\<close> and \<^verbatim>\<open>%\<close> in the text
  selects the parser; an address with a zone (a \<^verbatim>\<open>%\<close>) is refused by both callers.
  Only the family of the address is kept: the callers modelled here ignore its bytes.
\<close>

fun ParseAddr_scan :: "string \<Rightarrow> string \<Rightarrow> ip_family option" where
  "ParseAddr_scan s [] = None"
| "ParseAddr_scan s (c # cs) =
     (if c = CHR ''.'' then (if parseIPv4 s then Some IPv4 else None)
      else if c = CHR '':'' then (if CHR ''%'' \<notin> set s \<and> parseIPv6 s then Some IPv6 else None)
      else if c = CHR ''%'' then None
      else ParseAddr_scan s cs)"

definition ParseAddr :: "string \<Rightarrow> ip_family option" where
  "ParseAddr s = ParseAddr_scan s s"

definition BitLen :: "ip_family \<Rightarrow> nat" where
  "BitLen f = (case f of IPv4 \<Rightarrow> 32 | IPv6 \<Rightarrow> 128)"

text \<open>\<^verbatim>\<open>net.ParseIP(s) != nil\<close>.\<close>

definition ParseIP :: "string \<Rightarrow> bool" where
  "ParseIP s = (ParseAddr s \<noteq> None)"

text \<open>
  \<^verbatim>\<open>net.ParseCIDR(s)\<close> returning no error: the text is cut at the first \<^verbatim>\<open>/\<close>, the
  part before it is an address and the part after it is, in full, a decimal
  number not above the bit length of the address.
\<close>

definition ParseCIDR :: "string \<Rightarrow> bool" where
  "ParseCIDR s =
     (if CHR ''/'' \<notin> set s then False
      else
        (let addr = takeWhile (\<lambda>c. c \<noteq> CHR ''/'') s;
             mask = tl (dropWhile (\<lambda>c. c \<noteq> CHR ''/'') s)
         in case ParseAddr addr of
              None \<Rightarrow> False
            | Some ipAddr \<Rightarrow>
                (case dtoi mask of (n, i, ok) \<Rightarrow>
                   \<not> (\<not> ok \<or> i \<noteq> length mask \<or> n > BitLen ipAddr))))"

section \<open>Validation (server/api/models/vlan.go)\<close>

definition isValidCIDR :: "string \<Rightarrow> bool" where
  "isValidCIDR cidr = ParseCIDR cidr"

text \<open>The pattern \<^verbatim>\<open>^(\d{1,3}\.){3}\d{1,3}$\<close>.\<close>

definition ipRegex :: regex where
  "ipRegex = re_seq (re_times 3 (re_seq (re_range 1 3 re_digit) (re_lit CHR ''.'')))
                    (re_range 1 3 re_digit)"

definition isValidIP :: "string \<Rightarrow> bool" where
  "isValidIP ip = (if \<not> MatchString ipRegex ip then False else ParseIP ip)"

datatype validation_error =
  InvalidName | InvalidVlanTag | InvalidSubnet | InvalidGateway | InvalidStatus

text \<open>The messages of the five errors, as \<^verbatim>\<open>Validate\<close> writes them.\<close>

fun error_message :: "validation_error \<Rightarrow> string" where
  "error_message InvalidName = ''name must be between 1 and 255 characters''"
| "error_message InvalidVlanTag = ''vlan_id must be between 1 and 4094''"
| "error_message InvalidSubnet =
     ''invalid subnet format, must be in CIDR notation (e.g., 192.168.1.0/24)''"
| "error_message InvalidGateway = ''invalid gateway IP address format''"
| "error_message InvalidStatus = ''status must be one of: active, inactive, maintenance''"

definition validStatuses :: "string \<rightharpoonup> bool" where
  "validStatuses = [''active'' \<mapsto> True, ''inactive'' \<mapsto> True, ''maintenance'' \<mapsto> True]"

text \<open>Indexing a Go map of booleans with a missing key gives \<^verbatim>\<open>false\<close>.\<close>

definition map_index :: "(string \<rightharpoonup> bool) \<Rightarrow> string \<Rightarrow> bool" where
  "map_index m k = (case m k of None \<Rightarrow> False | Some b \<Rightarrow> b)"

definition Validate :: "VLANInput \<Rightarrow> validation_error option" where
  "Validate v =
     (if VLANInput.Name v = [] \<or> length (VLANInput.Name v) > 255 then Some InvalidName
      else if VLANInput.VlanID v <s 1 \<or> 4094 <s VLANInput.VlanID v then Some InvalidVlanTag
      else if \<not> isValidCIDR (VLANInput.Subnet v) then Some InvalidSubnet
      else if \<not> isValidIP (VLANInput.Gateway v) then Some InvalidGateway
      else if \<not> map_index validStatuses (VLANInput.Status v) then Some InvalidStatus
      else None)"

subsection \<open>The validation rules as the specification words them\<close>

text \<open>
  The five rules of the specification, in its order, each with the error it
  reports. The length of a name is counted in bytes, as \<^verbatim>\<open>len\<close> does; the subnet
  and gateway rules are the two checks of the code. \<open>first_violation\<close> walks a list
  of rules and reports the error of the first one that does not hold.
\<close>

definition name_rule :: "VLANInput \<Rightarrow> bool" where
  "name_rule v = (1 \<le> length (VLANInput.Name v) \<and> length (VLANInput.Name v) \<le> 255)"

definition vlanTag_rule :: "VLANInput \<Rightarrow> bool" where
  "vlanTag_rule v = (1 \<le> sint (VLANInput.VlanID v) \<and> sint (VLANInput.VlanID v) \<le> 4094)"

definition subnet_rule :: "VLANInput \<Rightarrow> bool" where
  "subnet_rule v = isValidCIDR (VLANInput.Subnet v)"

definition gateway_rule :: "VLANInput \<Rightarrow> bool" where
  "gateway_rule v = isValidIP (VLANInput.Gateway v)"

definition status_rule :: "VLANInput \<Rightarrow> bool" where
  "status_rule v = (VLANInput.Status v \<in> {''active'', ''inactive'', ''maintenance''})"

definition validation_rules :: "((VLANInput \<Rightarrow> bool) \<times> validation_error) list" where
  "validation_rules =
     [(name_rule, InvalidName), (vlanTag_rule, InvalidVlanTag), (subnet_rule, InvalidSubnet),
      (gateway_rule, InvalidGateway), (status_rule, InvalidStatus)]"

fun first_violation :: "(('a \<Rightarrow> bool) \<times> 'e) list \<Rightarrow> 'a \<Rightarrow> 'e option" where
  "first_violation [] v = None"
| "first_violation ((rule, err) # rules) v =
     (if rule v then first_violation rules v else Some err)"

text \<open>
  The gateway format as the specification words it: exactly four groups
  separated by dots, each all-numeric and parsing as an integer from 0 to 255.
\<close>

definition numeric_group :: "string \<Rightarrow> bool" where
  "numeric_group g = (g \<noteq> [] \<and> list_all is_digit g \<and> dec g \<le> 255)"

definition gateway_claim :: "string \<Rightarrow> bool" where
  "gateway_claim s =
     (length (Split s CHR ''.'') = 4 \<and> list_all numeric_group (Split s CHR ''.''))"

text \<open>One to three decimal digits: the texts that \<^verbatim>\<open>\d{1,3}\<close> matches.\<close>

definition digits13 :: "string \<Rightarrow> bool" where
  "digits13 w = (w \<noteq> [] \<and> length w \<le> 3 \<and> list_all is_digit w)"

section \<open>HTTP handlers (server/api/handlers)\<close>

text \<open>
  A request is its method, the path of its URL and its body; the body is the
  \<open>VLANInput\<close> that \<^verbatim>\<open>json.NewDecoder(r.Body).Decode\<close> yields, or \<open>None\<close> when decoding
  fails. A response is a status code with the JSON value written; \<open>HandlerPanic\<close>
  stands for a handler that panics instead of writing a response.
\<close>

record Request =
  Method :: string
  Path :: string
  Body :: "VLANInput option"

record ErrorResponse =
  Error :: string
  Timestamp :: time

datatype payload =
  ErrorJSON ErrorResponse | VLANJSON VLANModel | VLANsJSON "VLANModel list" | NoContent

datatype response = Response nat payload | HandlerPanic

definition sendErrorResponse :: "nat \<Rightarrow> string \<Rightarrow> time \<Rightarrow> response" where
  "sendErrorResponse status message now =
     Response status (ErrorJSON \<lparr>Error = message, Timestamp = now\<rparr>)"

definition sendJSONResponse :: "nat \<Rightarrow> payload \<Rightarrow> response" where
  "sendJSONResponse status data = Response status data"

definition extractIDFromPath :: "string \<Rightarrow> string + go_int" where
  "extractIDFromPath path =
     (let parts = Split (TrimPrefix_slash path) CHR ''/''
      in if length parts < 4 then Inl ''invalid path''
         else
           (case Atoi (parts ! 3) of
              None \<Rightarrow> Inl ''invalid ID format''
            | Some id' \<Rightarrow>
                if id' <s 1 \<or> 4094 <s id' then Inl ''ID must be between 1 and 4094''
                else Inr id'))"

definition GetVLANs :: "Request \<Rightarrow> time \<Rightarrow> fs \<Rightarrow> response \<times> fs" where
  "GetVLANs r now s =
     (if Method r \<noteq> ''GET'' then (sendErrorResponse 405 ''Method not allowed'' now, s)
      else
        (case GetAll s of
           Inl err \<Rightarrow> (sendErrorResponse 500 ''Failed to retrieve VLANs'' now, s)
         | Inr vlans \<Rightarrow> (sendJSONResponse 200 (VLANsJSON vlans), s)))"

definition CreateVLAN :: "Request \<Rightarrow> time \<Rightarrow> fs \<Rightarrow> response \<times> fs" where
  "CreateVLAN r now s =
     (if Method r \<noteq> ''POST'' then (sendErrorResponse 405 ''Method not allowed'' now, s)
      else
        (case Body r of
           None \<Rightarrow> (sendErrorResponse 400 ''Invalid request body'' now, s)
         | Some input \<Rightarrow>
             (case Validate input of
                Some err \<Rightarrow> (sendErrorResponse 400 (error_message err) now, s)
              | None \<Rightarrow>
                  (case Create input now s of
                     (Inl err, s') \<Rightarrow>
                       if err = ErrVLANExists
                       then (sendErrorResponse 409 ''VLAN with this ID already exists'' now, s')
                       else (sendErrorResponse 500 ''Failed to create VLAN'' now, s')
                   | (Inr vlan, s') \<Rightarrow> (sendJSONResponse 201 (VLANJSON vlan), s')))))"

definition GetVLAN :: "Request \<Rightarrow> time \<Rightarrow> fs \<Rightarrow> response \<times> fs" where
  "GetVLAN r now s =
     (if Method r \<noteq> ''GET'' then (sendErrorResponse 405 ''Method not allowed'' now, s)
      else
        (case extractIDFromPath (Path r) of
           Inl err \<Rightarrow> (sendErrorResponse 400 err now, s)
         | Inr id' \<Rightarrow>
             (case GetByID id' s of
                Inl err \<Rightarrow>
                  if err = ErrVLANNotFound
                  then (sendErrorResponse 404 ''VLAN not found'' now, s)
                  else (sendErrorResponse 500 ''Failed to retrieve VLAN'' now, s)
              | Inr vlan \<Rightarrow> (sendJSONResponse 200 (VLANJSON vlan), s))))"

definition UpdateVLAN :: "Request \<Rightarrow> time \<Rightarrow> fs \<Rightarrow> response \<times> fs" where
  "UpdateVLAN r now s =
     (if Method r \<noteq> ''PUT'' then (sendErrorResponse 405 ''Method not allowed'' now, s)
      else
        (case extractIDFromPath (Path r) of
           Inl err \<Rightarrow> (sendErrorResponse 400 err now, s)
         | Inr id' \<Rightarrow>
             (case Body r of
                None \<Rightarrow> (sendErrorResponse 400 ''Invalid request body'' now, s)
              | Some input \<Rightarrow>
                  (case Validate input of
                     Some err \<Rightarrow> (sendErrorResponse 400 (error_message err) now, s)
                   | None \<Rightarrow>
                       (case Update id' input now s of
                          (Inl err, s') \<Rightarrow>
                            if err = ErrVLANNotFound
                            then (sendErrorResponse 404 ''VLAN not found'' now, s')
                            else if err = ErrVLANExists
                            then (sendErrorResponse 409 ''VLAN with this ID already exists'' now, s')
                            else (sendErrorResponse 500 ''Failed to update VLAN'' now, s')
                        | (Inr vlan, s') \<Rightarrow> (sendJSONResponse 200 (VLANJSON vlan), s'))))))"

text \<open>
  A panic of \<^verbatim>\<open>Delete\<close> is not an error value that \<^verbatim>\<open>DeleteVLAN\<close> could test: it
  unwinds the handler.
\<close>

definition DeleteVLAN :: "Request \<Rightarrow> time \<Rightarrow> fs \<Rightarrow> response \<times> fs" where
  "DeleteVLAN r now s =
     (if Method r \<noteq> ''DELETE'' then (sendErrorResponse 405 ''Method not allowed'' now, s)
      else
        (case extractIDFromPath (Path r) of
           Inl err \<Rightarrow> (sendErrorResponse 400 err now, s)
         | Inr id' \<Rightarrow>
             (case Delete id' s of
                (Some err, s') \<Rightarrow>
                  if err = PanicMakeslice then (HandlerPanic, s')
                  else if err = ErrVLANNotFound
                  then (sendErrorResponse 404 ''VLAN not found'' now, s')
                  else (sendErrorResponse 500 ''Failed to delete VLAN'' now, s')
              | (None, s') \<Rightarrow> (Response 204 NoContent, s'))))"

definition HasPrefix :: "string \<Rightarrow> string \<Rightarrow> bool" where
  "HasPrefix s prefix = (take (length prefix) s = prefix)"

definition VLANHandler :: "Request \<Rightarrow> time \<Rightarrow> fs \<Rightarrow> response \<times> fs" where
  "VLANHandler r now s =
     (if Path r = ''/api/v1/vlans''
      then (if Method r = ''GET'' then GetVLANs r now s
            else if Method r = ''POST'' then CreateVLAN r now s
            else (sendErrorResponse 405 ''Method not allowed'' now, s))
      else if HasPrefix (Path r) ''/api/v1/vlans/''
      then (if Method r = ''GET'' then GetVLAN r now s
            else if Method r = ''PUT'' then UpdateVLAN r now s
            else if Method r = ''DELETE'' then DeleteVLAN r now s
            else (sendErrorResponse 405 ''Method not allowed'' now, s))
      else (sendErrorResponse 404 ''Endpoint not found'' now, s))"

section \<open>Concurrent calls and the lock of JSONStorage\<close>

text \<open>
  \<^verbatim>\<open>JSONStorage\<close> holds one \<^verbatim>\<open>sync.RWMutex\<close>. \<^verbatim>\<open>loadData\<close> takes the read lock on
  its first line and releases it when it returns (\<^verbatim>\<open>defer s.mu.RUnlock()\<close>);
  \<^verbatim>\<open>saveData\<close> does the same with the write lock. No operation takes a lock
  itself. A call is therefore a thread that goes through the states below; a step of
  the thread that wants a lock it cannot get leaves everything as it was (the
  thread is blocked).
\<close>

record RWMutex =
  readers :: nat
  writer :: bool

datatype operation =
  OpGetAll | OpGetByID go_int | OpCreate VLANInput time
  | OpUpdate go_int VLANInput time | OpDelete go_int

datatype result = VLANList "VLANModel list" | VLAN VLANModel | Nothing

text \<open>
  What an operation does with the loaded data between \<^verbatim>\<open>loadData\<close> and \<^verbatim>\<open>saveData\<close>:
  an error, or the data to save (if any) and the value to return.
\<close>

definition op_body :: "operation \<Rightarrow> VLANData \<Rightarrow> error + (VLANData option \<times> result)" where
  "op_body op data =
     (case op of
        OpGetAll \<Rightarrow> Inr (None, VLANList (VLANs data))
      | OpGetByID id' \<Rightarrow>
          (case find (\<lambda>vlan. ID vlan = id') (VLANs data) of
             Some vlan \<Rightarrow> Inr (None, VLAN vlan)
           | None \<Rightarrow> Inl ErrVLANNotFound)
      | OpCreate input now \<Rightarrow>
          (case Create_body input now data of
             Inl err \<Rightarrow> Inl err
           | Inr (data', newVLAN) \<Rightarrow> Inr (Some data', VLAN newVLAN))
      | OpUpdate id' input now \<Rightarrow>
          (case Update_body id' input now data of
             Inl err \<Rightarrow> Inl err
           | Inr (data', vlan') \<Rightarrow> Inr (Some data', VLAN vlan'))
      | OpDelete id' \<Rightarrow>
          (case Delete_body id' data of
             Inl err \<Rightarrow> Inl err
           | Inr data' \<Rightarrow> Inr (Some data', Nothing)))"

text \<open>A call of the operation on its own, through the five functions of the storage.\<close>

definition call :: "operation \<Rightarrow> fs \<Rightarrow> (error + result) \<times> fs" where
  "call op s =
     (case op of
        OpGetAll \<Rightarrow>
          (case GetAll s of Inl err \<Rightarrow> (Inl err, s) | Inr vlans \<Rightarrow> (Inr (VLANList vlans), s))
      | OpGetByID id' \<Rightarrow>
          (case GetByID id' s of Inl err \<Rightarrow> (Inl err, s) | Inr vlan \<Rightarrow> (Inr (VLAN vlan), s))
      | OpCreate input now \<Rightarrow>
          (case Create input now s of
             (Inl err, s') \<Rightarrow> (Inl err, s') | (Inr vlan, s') \<Rightarrow> (Inr (VLAN vlan), s'))
      | OpUpdate id' input now \<Rightarrow>
          (case Update id' input now s of
             (Inl err, s') \<Rightarrow> (Inl err, s') | (Inr vlan, s') \<Rightarrow> (Inr (VLAN vlan), s'))
      | OpDelete id' \<Rightarrow>
          (case Delete id' s of
             (Some err, s') \<Rightarrow> (Inl err, s') | (None, s') \<Rightarrow> (Inr Nothing, s')))"

text \<open>
  The states of a call: \<open>Ready\<close> before \<^verbatim>\<open>loadData\<close>; \<open>InLoad\<close> inside \<^verbatim>\<open>loadData\<close>,
  holding the read lock; \<open>Loaded\<close> after \<^verbatim>\<open>loadData\<close> has returned and released it;
  \<open>WaitSave\<close> with the new data computed, before \<^verbatim>\<open>saveData\<close>; \<open>InSave\<close> inside
  \<^verbatim>\<open>saveData\<close>, holding the write lock; \<open>Finished\<close> with the value returned.
\<close>

datatype thread =
  Ready operation
  | InLoad operation
  | Loaded operation VLANData
  | WaitSave VLANData result
  | InSave VLANData result
  | Finished "error + result"

definition thread_step :: "thread \<Rightarrow> RWMutex \<Rightarrow> fs \<Rightarrow> thread \<times> RWMutex \<times> fs" where
  "thread_step t m s =
     (case t of
        Ready op \<Rightarrow>
          if writer m then (t, m, s)
          else (InLoad op, m\<lparr>readers := readers m + 1\<rparr>, s)
      | InLoad op \<Rightarrow>
          (case loadData s of
             Inl err \<Rightarrow> (Finished (Inl err), m\<lparr>readers := readers m - 1\<rparr>, s)
           | Inr data \<Rightarrow> (Loaded op data, m\<lparr>readers := readers m - 1\<rparr>, s))
      | Loaded op data \<Rightarrow>
          (case op_body op data of
             Inl err \<Rightarrow> (Finished (Inl err), m, s)
           | Inr (None, r) \<Rightarrow> (Finished (Inr r), m, s)
           | Inr (Some data', r) \<Rightarrow> (WaitSave data' r, m, s))
      | WaitSave data' r \<Rightarrow>
          if writer m \<or> readers m > 0 then (t, m, s)
          else (InSave data' r, m\<lparr>writer := True\<rparr>, s)
      | InSave data' r \<Rightarrow>
          (case saveData data' s of
             Inl err \<Rightarrow> (Finished (Inl err), m\<lparr>writer := False\<rparr>, s)
           | Inr s' \<Rightarrow> (Finished (Inr r), m\<lparr>writer := False\<rparr>, s'))
      | Finished x \<Rightarrow> (t, m, s))"

text \<open>
  The storage with its lock, its file and the calls in progress. A schedule is the
  list of the threads that take the next step, one after the other.
\<close>

record config =
  mu :: RWMutex
  disk :: fs
  threads :: "thread list"

definition step :: "nat \<Rightarrow> config \<Rightarrow> config" where
  "step i c =
     (if i < length (threads c)
      then (case thread_step (threads c ! i) (mu c) (disk c) of
              (t', m', s') \<Rightarrow> \<lparr>mu = m', disk = s', threads = (threads c)[i := t']\<rparr>)
      else c)"

definition run :: "nat list \<Rightarrow> config \<Rightarrow> config" where
  "run schedule c = fold step schedule c"

definition start :: "fs \<Rightarrow> operation list \<Rightarrow> config" where
  "start s ops = \<lparr>mu = \<lparr>readers = 0, writer = False\<rparr>, disk = s, threads = map Ready ops\<rparr>"

fun holds_read :: "thread \<Rightarrow> bool" where
  "holds_read (InLoad op) = True"
| "holds_read t = False"

fun holds_write :: "thread \<Rightarrow> bool" where
  "holds_write (InSave data r) = True"
| "holds_write t = False"

text \<open>
  The lock and the threads agree: the lock counts the threads inside \<^verbatim>\<open>loadData\<close>,
  its writer flag is set exactly when a thread is inside \<^verbatim>\<open>saveData\<close>, at most one
  thread is, and then none is inside \<^verbatim>\<open>loadData\<close>.
\<close>

definition lock_inv :: "config \<Rightarrow> bool" where
  "lock_inv c =
     (readers (mu c) = length (filter holds_read (threads c)) \<and>
      (if writer (mu c) then 1 else 0) = length (filter holds_write (threads c)) \<and>
      (writer (mu c) \<longrightarrow> readers (mu c) = 0))"

section \<open>Properties of the storage engine\<close>

subsection \<open>The ID loop of Create\<close>

lemma sint_succ:
  assumes "sint (x::go_int) < 2^63 - 1"
  shows "sint (x + 1) = sint x + 1"
proof -
  have lo: "- (2^63) \<le> sint x" using sint_ge [of x] by simp
  have "sint (x + 1) = signed_take_bit 63 (sint x + 1)"
    by (simp add: sint_word_add [of x 1, simplified])
  also have "\<dots> = sint x + 1"
    using lo assms by (intro signed_take_bit_int_eq_self) simp_all
  finally show ?thesis .
qed

lemma fold_max_upper:
  "sint m \<le> sint (fold (\<lambda>vlan maxID. if maxID <s ID vlan then ID vlan else maxID) vs m)"
proof (induction vs arbitrary: m)
  case Nil
  show ?case by simp
next
  case (Cons v vs)
  show ?case
    using Cons [of "ID v"] Cons [of m] by (simp add: word_sless_alt)
qed

lemma fold_max_ge:
  "v \<in> set vs \<Longrightarrow>
   sint (ID v) \<le> sint (fold (\<lambda>vlan maxID. if maxID <s ID vlan then ID vlan else maxID) vs m)"
proof (induction vs arbitrary: m)
  case Nil
  then show ?case by simp
next
  case (Cons w vs)
  show ?case
  proof (cases "v = w")
    case True
    then show ?thesis
      using fold_max_upper [of "ID w" vs] fold_max_upper [of m vs]
      by (simp add: word_sless_alt)
  next
    case False
    with Cons.prems have "v \<in> set vs" by simp
    then show ?thesis using Cons.IH by simp
  qed
qed

lemma fold_max_mem:
  "fold (\<lambda>vlan maxID. if maxID <s ID vlan then ID vlan else maxID) vs m \<in> insert m (ID ` set vs)"
  by (induction vs arbitrary: m) auto

text \<open>The loop returns the largest of 0 and the existing IDs, read as signed integers.\<close>

lemma maxID_loop_Max:
  "sint (maxID_loop vs) = Max (insert 0 (sint ` ID ` set vs))"
proof (rule sym, rule Max_eqI)
  show "finite (insert 0 (sint ` ID ` set vs))" by simp
next
  fix y assume "y \<in> insert 0 (sint ` ID ` set vs)"
  then show "y \<le> sint (maxID_loop vs)"
    using fold_max_upper [of 0 vs] fold_max_ge [of _ vs 0]
    by (auto simp: maxID_loop_def)
next
  show "sint (maxID_loop vs) \<in> insert 0 (sint ` ID ` set vs)"
    using fold_max_mem [of vs 0] by (auto simp: maxID_loop_def)
qed

lemma newID_of_sint:
  assumes "vs \<noteq> []" and "Max (sint ` ID ` set vs) < 2^63 - 1"
  shows "sint (newID_of vs) = max 0 (Max (sint ` ID ` set vs)) + 1"
proof -
  from assms(1) have ne: "sint ` ID ` set vs \<noteq> {}" by simp
  have M: "sint (maxID_loop vs) = max 0 (Max (sint ` ID ` set vs))"
    using ne by (simp add: maxID_loop_Max)
  with assms(2) have "sint (maxID_loop vs) < 2^63 - 1" by simp
  then have "sint (maxID_loop vs + 1) = sint (maxID_loop vs) + 1" by (rule sint_succ)
  with M assms(1) show ?thesis by (simp add: newID_of_def)
qed

lemma newID_of_fresh:
  assumes "vs = [] \<or> Max (sint ` ID ` set vs) < 2^63 - 1" and "v \<in> set vs"
  shows "ID v \<noteq> newID_of vs"
proof
  assume eq: "ID v = newID_of vs"
  from assms have ne: "vs \<noteq> []" and lt: "Max (sint ` ID ` set vs) < 2^63 - 1" by auto
  have "sint (ID v) \<le> Max (sint ` ID ` set vs)" using assms(2) by simp
  moreover have "sint (newID_of vs) = max 0 (Max (sint ` ID ` set vs)) + 1"
    using ne lt by (rule newID_of_sint)
  ultimately show False using eq by simp
qed

subsection \<open>Create, step by step\<close>

lemma Create_success:
  assumes "contents s = Some data" and "writable s"
    and "\<not> (\<exists>vlan \<in> set (VLANs data). VlanID vlan = VLANInput.VlanID input)"
  shows "Create input now s =
          (Inr \<lparr>ID = newID_of (VLANs data), Name = VLANInput.Name input,
                VlanID = VLANInput.VlanID input, Subnet = VLANInput.Subnet input,
                Gateway = VLANInput.Gateway input, Status = VLANInput.Status input,
                CreatedAt = now, UpdatedAt = now\<rparr>,
           s\<lparr>contents := Some (data\<lparr>VLANs := VLANs data @
              [\<lparr>ID = newID_of (VLANs data), Name = VLANInput.Name input,
                VlanID = VLANInput.VlanID input, Subnet = VLANInput.Subnet input,
                Gateway = VLANInput.Gateway input, Status = VLANInput.Status input,
                CreatedAt = now, UpdatedAt = now\<rparr>]\<rparr>)\<rparr>)"
  using assms
  by (simp add: Create_def loadData_def saveData_def Create_body_def list_ex_iff Let_def)

lemma Create_Inr_D:
  assumes "contents s = Some data" and "Create input now s = (Inr newVLAN, s')"
  shows "ID newVLAN = newID_of (VLANs data) \<and>
         contents s' = Some (data\<lparr>VLANs := VLANs data @ [newVLAN]\<rparr>)"
  using assms
  by (auto simp: Create_def loadData_def saveData_def Create_body_def Let_def
      split: if_splits)

lemma find_append_last:
  "(\<forall>v \<in> set vs. \<not> P v) \<Longrightarrow> P x \<Longrightarrow> find P (vs @ [x]) = Some x"
  by (induction vs) auto

subsection \<open>Update, step by step\<close>

lemma index_of_ID_None: "index_of_ID id' vs = None \<longleftrightarrow> \<not> (\<exists>v \<in> set vs. ID v = id')"
  by (induction vs) auto

lemma index_of_ID_split:
  "(\<forall>v \<in> set pre. ID v \<noteq> id') \<Longrightarrow> ID t = id' \<Longrightarrow>
   index_of_ID id' (pre @ t # post) = Some (length pre)"
  by (induction pre) auto

lemma Update_not_found:
  assumes "contents s = Some data" and "\<not> (\<exists>v \<in> set (VLANs data). ID v = id')"
  shows "Update id' input now s = (Inl ErrVLANNotFound, s)"
proof -
  from assms(2) have "index_of_ID id' (VLANs data) = None" by (simp add: index_of_ID_None)
  then have "Update_body id' input now data = Inl ErrVLANNotFound" by (simp add: Update_body_def)
  with assms(1) show ?thesis by (simp add: Update_def loadData_def)
qed

lemma Update_body_found:
  assumes "VLANs data = pre @ t # post" and "\<forall>v \<in> set pre. ID v \<noteq> id'" and "ID t = id'"
  shows "Update_body id' input now data =
           (if VlanID t \<noteq> VLANInput.VlanID input \<and>
               (\<exists>v \<in> set (VLANs data). ID v \<noteq> id' \<and> VlanID v = VLANInput.VlanID input)
            then Inl ErrVLANExists
            else Inr (data\<lparr>VLANs := pre @
                        \<lparr>ID = ID t, Name = VLANInput.Name input, VlanID = VLANInput.VlanID input,
                         Subnet = VLANInput.Subnet input, Gateway = VLANInput.Gateway input,
                         Status = VLANInput.Status input, CreatedAt = CreatedAt t,
                         UpdatedAt = now\<rparr> # post\<rparr>,
                      \<lparr>ID = ID t, Name = VLANInput.Name input, VlanID = VLANInput.VlanID input,
                         Subnet = VLANInput.Subnet input, Gateway = VLANInput.Gateway input,
                         Status = VLANInput.Status input, CreatedAt = CreatedAt t,
                         UpdatedAt = now\<rparr>))"
proof -
  have i: "index_of_ID id' (VLANs data) = Some (length pre)"
    using assms by (simp add: index_of_ID_split)
  have n: "VLANs data ! length pre = t" using assms(1) by simp
  have u: "(VLANs data)[length pre := x] = pre @ x # post" for x
    using assms(1) by simp
  show ?thesis
    unfolding Update_body_def i n Let_def option.case u
    by (simp add: list_ex_iff del: set_append)
qed

subsection \<open>Delete on a dataset with at least one record\<close>

lemma Delete_nonempty:
  assumes "contents s = Some data" and "VLANs data \<noteq> []"
  shows "Delete id' s =
          (if \<not> (\<exists>vlan \<in> set (VLANs data). ID vlan = id') then (Some ErrVLANNotFound, s)
           else if writable s
           then (None, s\<lparr>contents := Some (data\<lparr>VLANs := filter (\<lambda>vlan. ID vlan \<noteq> id') (VLANs data)\<rparr>)\<rparr>)
           else (Some ErrStorageIO, s))"
  using assms
  by (simp add: Delete_def loadData_def saveData_def Delete_body_def list_ex_iff)

section \<open>Create on a colliding VlanID\<close>

text \<open>
  C3. For every dataset and every input whose \<open>VlanID\<close> equals the \<open>VlanID\<close> of a
  record already in the dataset, \<open>Create\<close> fails with \<open>ErrVLANExists\<close>, the file is
  exactly as before the call, and a following \<open>GetAll\<close> returns the dataset unchanged.
\<close>

theorem Create_collision_unchanged:
  assumes "contents s = Some data"
    and "\<exists>vlan \<in> set (VLANs data). VlanID vlan = VLANInput.VlanID input"
  shows "Create input now s = (Inl ErrVLANExists, s) \<and>
         GetAll (snd (Create input now s)) = Inr (VLANs data)"
proof -
  from assms(2) have "list_ex (\<lambda>vlan. VlanID vlan = VLANInput.VlanID input) (VLANs data)"
    by (simp add: list_ex_iff)
  then have "Create_body input now data = Inl ErrVLANExists"
    by (simp add: Create_body_def)
  with assms(1) have "Create input now s = (Inl ErrVLANExists, s)"
    by (simp add: Create_def loadData_def)
  with assms(1) show ?thesis
    by (simp add: GetAll_def loadData_def)
qed

theorem Create_collision_unchanged_witness:
  "Create \<lparr>VLANInput.Name = ''Prod'', VlanID = 100, Subnet = ''192.168.1.0/24'',
           Gateway = ''192.168.1.1'', Status = ''active''\<rparr> 7
     \<lparr>contents = Some \<lparr>VLANs = [\<lparr>ID = 1, Name = ''Old'', VlanID = 100, Subnet = ''10.0.0.0/8'',
                               Gateway = ''10.0.0.1'', Status = ''active'',
                               CreatedAt = 1, UpdatedAt = 1\<rparr>]\<rparr>, writable = True\<rparr>
   = (Inl ErrVLANExists,
      \<lparr>contents = Some \<lparr>VLANs = [\<lparr>ID = 1, Name = ''Old'', VlanID = 100, Subnet = ''10.0.0.0/8'',
                               Gateway = ''10.0.0.1'', Status = ''active'',
                               CreatedAt = 1, UpdatedAt = 1\<rparr>]\<rparr>, writable = True\<rparr>)"
  using Create_collision_unchanged
    [of "\<lparr>contents = Some \<lparr>VLANs = [\<lparr>ID = 1, Name = ''Old'', VlanID = 100, Subnet = ''10.0.0.0/8'',
                               Gateway = ''10.0.0.1'', Status = ''active'',
                               CreatedAt = 1, UpdatedAt = 1\<rparr>]\<rparr>, writable = True\<rparr>"
        "\<lparr>VLANs = [\<lparr>ID = 1, Name = ''Old'', VlanID = 100, Subnet = ''10.0.0.0/8'',
                               Gateway = ''10.0.0.1'', Status = ''active'',
                               CreatedAt = 1, UpdatedAt = 1\<rparr>]\<rparr>"
        "\<lparr>VLANInput.Name = ''Prod'', VlanID = 100, Subnet = ''192.168.1.0/24'',
           Gateway = ''192.168.1.1'', Status = ''active''\<rparr>" 7]
  by simp

section \<open>The ID that Create assigns\<close>

text \<open>
  C2 as the code has it. The claim reads: for every dataset and every input whose
  \<open>VlanID\<close> does not collide, \<open>Create\<close> assigns \<open>max (existing ids) + 1\<close> (1 on the
  empty dataset), appends the new record at the end and returns it. The loop of
  the code starts \<^verbatim>\<open>maxID\<close> at 0, so on a dataset whose IDs are all negative the
  new ID is 1 and not the maximum plus one:
\<close>

theorem Create_id_counterexample:
  "fst (Create \<lparr>VLANInput.Name = ''B'', VlanID = 20, Subnet = ''10.0.0.0/8'',
                 Gateway = ''10.0.0.1'', Status = ''active''\<rparr> 7
          \<lparr>contents = Some \<lparr>VLANs = [\<lparr>ID = - 3, Name = ''A'', VlanID = 10, Subnet = ''10.0.0.0/8'',
                                      Gateway = ''10.0.0.1'', Status = ''active'',
                                      CreatedAt = 1, UpdatedAt = 1\<rparr>]\<rparr>, writable = True\<rparr>)
   = Inr \<lparr>ID = 1, Name = ''B'', VlanID = 20, Subnet = ''10.0.0.0/8'',
          Gateway = ''10.0.0.1'', Status = ''active'', CreatedAt = 7, UpdatedAt = 7\<rparr>
   \<and> Max (sint ` ID ` set [\<lparr>ID = - 3 :: go_int, Name = ''A'', VlanID = 10, Subnet = ''10.0.0.0/8'',
                                      Gateway = ''10.0.0.1'', Status = ''active'',
                                      CreatedAt = 1, UpdatedAt = 1\<rparr>]) + 1 = - 2"
  by (simp add: Create_def loadData_def saveData_def Create_body_def
      newID_of_def maxID_loop_def Let_def word_sless_alt)

text \<open>
  C2, amended. For every dataset, every writable file and every input whose \<open>VlanID\<close>
  does not collide with an existing record, \<open>Create\<close> appends one new record at the end
  of the sequence, leaving the existing records in place, and returns it; the record
  carries the input's fields and the current time in both timestamps; its ID is 1 on
  the empty dataset and otherwise \<open>max (0, existing ids) + 1\<close>, provided the largest
  existing ID is below the largest \<^verbatim>\<open>int\<close> (so it is the maximum plus one whenever
  some existing ID is not negative). Consequently, starting from the empty dataset,
  three creations with distinct tags get the IDs 1, 2, 3, and after deleting ID 3 the
  next creation gets ID 3 again.
\<close>

theorem Create_assigns_next_id:
  assumes "contents s = Some data" and "writable s"
    and "\<not> (\<exists>vlan \<in> set (VLANs data). VlanID vlan = VLANInput.VlanID input)"
  shows "(\<exists>newVLAN.
           Create input now s =
             (Inr newVLAN, s\<lparr>contents := Some (data\<lparr>VLANs := VLANs data @ [newVLAN]\<rparr>)\<rparr>) \<and>
           Name newVLAN = VLANInput.Name input \<and>
           VlanID newVLAN = VLANInput.VlanID input \<and>
           Subnet newVLAN = VLANInput.Subnet input \<and>
           Gateway newVLAN = VLANInput.Gateway input \<and>
           Status newVLAN = VLANInput.Status input \<and>
           CreatedAt newVLAN = now \<and> UpdatedAt newVLAN = now \<and>
           (VLANs data = [] \<longrightarrow> ID newVLAN = 1) \<and>
           (VLANs data \<noteq> [] \<and> Max (sint ` ID ` set (VLANs data)) < 2^63 - 1 \<longrightarrow>
              sint (ID newVLAN) = max 0 (Max (sint ` ID ` set (VLANs data))) + 1)) \<and>
         (distinct [VLANInput.VlanID i1, VLANInput.VlanID i2, VLANInput.VlanID i3] \<and>
          VLANInput.VlanID i4 \<noteq> VLANInput.VlanID i1 \<and>
          VLANInput.VlanID i4 \<noteq> VLANInput.VlanID i2 \<longrightarrow>
            (let s0 = \<lparr>contents = Some \<lparr>VLANs = []\<rparr>, writable = True\<rparr>;
                 (r1, s1) = Create i1 n1 s0;
                 (r2, s2) = Create i2 n2 s1;
                 (r3, s3) = Create i3 n3 s2;
                 (e, s4) = Delete 3 s3;
                 (r4, s5) = Create i4 n4 s4
             in map_sum (\<lambda>err. err) ID r1 = Inr 1 \<and> map_sum (\<lambda>err. err) ID r2 = Inr 2 \<and>
                map_sum (\<lambda>err. err) ID r3 = Inr 3 \<and> e = None \<and>
                map_sum (\<lambda>err. err) ID r4 = Inr 3))"
proof (intro conjI impI)
  show "\<exists>newVLAN.
           Create input now s =
             (Inr newVLAN, s\<lparr>contents := Some (data\<lparr>VLANs := VLANs data @ [newVLAN]\<rparr>)\<rparr>) \<and>
           Name newVLAN = VLANInput.Name input \<and>
           VlanID newVLAN = VLANInput.VlanID input \<and>
           Subnet newVLAN = VLANInput.Subnet input \<and>
           Gateway newVLAN = VLANInput.Gateway input \<and>
           Status newVLAN = VLANInput.Status input \<and>
           CreatedAt newVLAN = now \<and> UpdatedAt newVLAN = now \<and>
           (VLANs data = [] \<longrightarrow> ID newVLAN = 1) \<and>
           (VLANs data \<noteq> [] \<and> Max (sint ` ID ` set (VLANs data)) < 2^63 - 1 \<longrightarrow>
              sint (ID newVLAN) = max 0 (Max (sint ` ID ` set (VLANs data))) + 1)"
    using Create_success [OF assms, of now] newID_of_sint [of "VLANs data"]
    by (auto simp: newID_of_def)
next
  assume "distinct [VLANInput.VlanID i1, VLANInput.VlanID i2, VLANInput.VlanID i3] \<and>
          VLANInput.VlanID i4 \<noteq> VLANInput.VlanID i1 \<and>
          VLANInput.VlanID i4 \<noteq> VLANInput.VlanID i2"
  then show "let s0 = \<lparr>contents = Some \<lparr>VLANs = []\<rparr>, writable = True\<rparr>;
                 (r1, s1) = Create i1 n1 s0;
                 (r2, s2) = Create i2 n2 s1;
                 (r3, s3) = Create i3 n3 s2;
                 (e, s4) = Delete 3 s3;
                 (r4, s5) = Create i4 n4 s4
             in map_sum (\<lambda>err. err) ID r1 = Inr 1 \<and> map_sum (\<lambda>err. err) ID r2 = Inr 2 \<and>
                map_sum (\<lambda>err. err) ID r3 = Inr 3 \<and> e = None \<and>
                map_sum (\<lambda>err. err) ID r4 = Inr 3"
    by (auto simp add: Create_def loadData_def saveData_def Create_body_def Delete_def
        Delete_body_def newID_of_def maxID_loop_def Let_def word_sless_alt)
qed

theorem Create_assigns_next_id_witness:
  "Create \<lparr>VLANInput.Name = ''C'', VlanID = 30, Subnet = ''10.3.0.0/16'',
           Gateway = ''10.3.0.1'', Status = ''active''\<rparr> 7
     \<lparr>contents = Some \<lparr>VLANs =
        [\<lparr>ID = 1, Name = ''A'', VlanID = 10, Subnet = ''10.1.0.0/16'',
          Gateway = ''10.1.0.1'', Status = ''active'', CreatedAt = 1, UpdatedAt = 1\<rparr>,
         \<lparr>ID = 2, Name = ''B'', VlanID = 20, Subnet = ''10.2.0.0/16'',
          Gateway = ''10.2.0.1'', Status = ''inactive'', CreatedAt = 2, UpdatedAt = 2\<rparr>]\<rparr>,
      writable = True\<rparr>
   = (Inr \<lparr>ID = 3, Name = ''C'', VlanID = 30, Subnet = ''10.3.0.0/16'',
           Gateway = ''10.3.0.1'', Status = ''active'', CreatedAt = 7, UpdatedAt = 7\<rparr>,
      \<lparr>contents = Some \<lparr>VLANs =
        [\<lparr>ID = 1, Name = ''A'', VlanID = 10, Subnet = ''10.1.0.0/16'',
          Gateway = ''10.1.0.1'', Status = ''active'', CreatedAt = 1, UpdatedAt = 1\<rparr>,
         \<lparr>ID = 2, Name = ''B'', VlanID = 20, Subnet = ''10.2.0.0/16'',
          Gateway = ''10.2.0.1'', Status = ''inactive'', CreatedAt = 2, UpdatedAt = 2\<rparr>,
         \<lparr>ID = 3, Name = ''C'', VlanID = 30, Subnet = ''10.3.0.0/16'',
           Gateway = ''10.3.0.1'', Status = ''active'', CreatedAt = 7, UpdatedAt = 7\<rparr>]\<rparr>,
      writable = True\<rparr>)
   \<and> fst (Create \<lparr>VLANInput.Name = ''D'', VlanID = 40, Subnet = ''10.4.0.0/16'',
                   Gateway = ''10.4.0.1'', Status = ''active''\<rparr> 9
        (snd (Delete 3
        (snd (Create \<lparr>VLANInput.Name = ''C'', VlanID = 30, Subnet = ''10.3.0.0/16'',
                      Gateway = ''10.3.0.1'', Status = ''active''\<rparr> 3
        (snd (Create \<lparr>VLANInput.Name = ''B'', VlanID = 20, Subnet = ''10.2.0.0/16'',
                      Gateway = ''10.2.0.1'', Status = ''active''\<rparr> 2
        (snd (Create \<lparr>VLANInput.Name = ''A'', VlanID = 10, Subnet = ''10.1.0.0/16'',
                      Gateway = ''10.1.0.1'', Status = ''active''\<rparr> 1
                \<lparr>contents = Some \<lparr>VLANs = []\<rparr>, writable = True\<rparr>)))))))))
     = Inr \<lparr>ID = 3, Name = ''D'', VlanID = 40, Subnet = ''10.4.0.0/16'',
            Gateway = ''10.4.0.1'', Status = ''active'', CreatedAt = 9, UpdatedAt = 9\<rparr>"
  using Create_assigns_next_id
    [where s = "\<lparr>contents = Some \<lparr>VLANs =
        [\<lparr>ID = 1, Name = ''A'', VlanID = 10, Subnet = ''10.1.0.0/16'',
          Gateway = ''10.1.0.1'', Status = ''active'', CreatedAt = 1, UpdatedAt = 1\<rparr>,
         \<lparr>ID = 2, Name = ''B'', VlanID = 20, Subnet = ''10.2.0.0/16'',
          Gateway = ''10.2.0.1'', Status = ''inactive'', CreatedAt = 2, UpdatedAt = 2\<rparr>]\<rparr>,
      writable = True\<rparr>"
     and data = "\<lparr>VLANs =
        [\<lparr>ID = 1, Name = ''A'', VlanID = 10, Subnet = ''10.1.0.0/16'',
          Gateway = ''10.1.0.1'', Status = ''active'', CreatedAt = 1, UpdatedAt = 1\<rparr>,
         \<lparr>ID = 2, Name = ''B'', VlanID = 20, Subnet = ''10.2.0.0/16'',
          Gateway = ''10.2.0.1'', Status = ''inactive'', CreatedAt = 2, UpdatedAt = 2\<rparr>]\<rparr>"
     and input = "\<lparr>VLANInput.Name = ''C'', VlanID = 30, Subnet = ''10.3.0.0/16'',
           Gateway = ''10.3.0.1'', Status = ''active''\<rparr>"
     and now = 7
     and ?i1.0 = "\<lparr>VLANInput.Name = ''A'', VlanID = 10, Subnet = ''10.1.0.0/16'',
                      Gateway = ''10.1.0.1'', Status = ''active''\<rparr>"
     and ?i2.0 = "\<lparr>VLANInput.Name = ''B'', VlanID = 20, Subnet = ''10.2.0.0/16'',
                      Gateway = ''10.2.0.1'', Status = ''active''\<rparr>"
     and ?i3.0 = "\<lparr>VLANInput.Name = ''C'', VlanID = 30, Subnet = ''10.3.0.0/16'',
                      Gateway = ''10.3.0.1'', Status = ''active''\<rparr>"
     and ?i4.0 = "\<lparr>VLANInput.Name = ''D'', VlanID = 40, Subnet = ''10.4.0.0/16'',
                   Gateway = ''10.4.0.1'', Status = ''active''\<rparr>"
     and ?n1.0 = 1 and ?n2.0 = 2 and ?n3.0 = 3 and ?n4.0 = 9]
  by (simp add: Create_def loadData_def saveData_def Create_body_def Delete_def Delete_body_def
        newID_of_def maxID_loop_def Let_def word_sless_alt)

section \<open>Update\<close>

text \<open>
  C4 as the code has it. The claim reads: when the target exists, the input's tag
  differs from the target's and some other record (excluding the target) has that
  tag, \<open>Update\<close> fails with \<open>ErrVLANExists\<close>. The inner loop of the code excludes
  records by ID (\<^verbatim>\<open>v.ID != id\<close>), not by position: in a file where two records
  share an ID, the second of them is another record than the target and holds the
  tag, and \<open>Update\<close> succeeds.
\<close>

theorem Update_counterexample:
  "fst (Update 1 \<lparr>VLANInput.Name = ''X'', VlanID = 20, Subnet = ''10.0.0.0/8'',
                 Gateway = ''10.0.0.1'', Status = ''active''\<rparr> 9
     \<lparr>contents = Some \<lparr>VLANs =
        [\<lparr>ID = 1, Name = ''A'', VlanID = 10, Subnet = ''10.0.0.0/8'',
          Gateway = ''10.0.0.1'', Status = ''active'', CreatedAt = 1, UpdatedAt = 1\<rparr>,
         \<lparr>ID = 1, Name = ''B'', VlanID = 20, Subnet = ''10.0.0.0/8'',
          Gateway = ''10.0.0.1'', Status = ''active'', CreatedAt = 2, UpdatedAt = 2\<rparr>]\<rparr>,
      writable = True\<rparr>)
   = Inr \<lparr>ID = 1, Name = ''X'', VlanID = 20, Subnet = ''10.0.0.0/8'',
          Gateway = ''10.0.0.1'', Status = ''active'', CreatedAt = 1, UpdatedAt = 9\<rparr>"
  by (simp add: Update_def loadData_def saveData_def Update_body_def Let_def)

text \<open>
  C4, amended. For every dataset, every ID and every input: \<open>Update\<close> fails with
  \<open>ErrVLANNotFound\<close> if no record has that ID. Otherwise the target is the first
  record \<open>t\<close> with that ID; if the input's tag differs from the target's tag and some
  record with a different ID has that tag, \<open>Update\<close> fails with \<open>ErrVLANExists\<close> and
  the file is unchanged; otherwise, the file being writable, it overwrites every
  field of the target except \<open>ID\<close> and \<open>CreatedAt\<close>, sets \<open>UpdatedAt\<close> to the current
  time, leaves every other record in place, persists and returns the updated
  record (if the write fails it returns the I/O error and the file is unchanged).
  In particular an update that keeps the tag succeeds whenever the record exists
  and the file is writable.
\<close>

theorem Update_behaviour:
  assumes "contents s = Some data"
  shows "(\<not> (\<exists>v \<in> set (VLANs data). ID v = id') \<longrightarrow>
            Update id' input now s = (Inl ErrVLANNotFound, s)) \<and>
         (\<forall>pre t post.
            VLANs data = pre @ t # post \<and> (\<forall>v \<in> set pre. ID v \<noteq> id') \<and> ID t = id' \<longrightarrow>
            Update id' input now s =
              (if VlanID t \<noteq> VLANInput.VlanID input \<and>
                  (\<exists>v \<in> set (VLANs data). ID v \<noteq> id' \<and> VlanID v = VLANInput.VlanID input)
               then (Inl ErrVLANExists, s)
               else if writable s
               then (Inr \<lparr>ID = ID t, Name = VLANInput.Name input, VlanID = VLANInput.VlanID input,
                         Subnet = VLANInput.Subnet input, Gateway = VLANInput.Gateway input,
                         Status = VLANInput.Status input, CreatedAt = CreatedAt t,
                         UpdatedAt = now\<rparr>,
                     s\<lparr>contents := Some (data\<lparr>VLANs := pre @
                        \<lparr>ID = ID t, Name = VLANInput.Name input, VlanID = VLANInput.VlanID input,
                         Subnet = VLANInput.Subnet input, Gateway = VLANInput.Gateway input,
                         Status = VLANInput.Status input, CreatedAt = CreatedAt t,
                         UpdatedAt = now\<rparr> # post\<rparr>)\<rparr>)
               else (Inl ErrStorageIO, s)))"
proof (intro conjI allI impI)
  assume "\<not> (\<exists>v \<in> set (VLANs data). ID v = id')"
  with assms show "Update id' input now s = (Inl ErrVLANNotFound, s)"
    by (rule Update_not_found)
next
  fix pre t post
  assume a: "VLANs data = pre @ t # post \<and> (\<forall>v \<in> set pre. ID v \<noteq> id') \<and> ID t = id'"
  then have b: "VLANs data = pre @ t # post" "\<forall>v \<in> set pre. ID v \<noteq> id'" "ID t = id'"
    by simp_all
  show "Update id' input now s =
              (if VlanID t \<noteq> VLANInput.VlanID input \<and>
                  (\<exists>v \<in> set (VLANs data). ID v \<noteq> id' \<and> VlanID v = VLANInput.VlanID input)
               then (Inl ErrVLANExists, s)
               else if writable s
               then (Inr \<lparr>ID = ID t, Name = VLANInput.Name input, VlanID = VLANInput.VlanID input,
                         Subnet = VLANInput.Subnet input, Gateway = VLANInput.Gateway input,
                         Status = VLANInput.Status input, CreatedAt = CreatedAt t,
                         UpdatedAt = now\<rparr>,
                     s\<lparr>contents := Some (data\<lparr>VLANs := pre @
                        \<lparr>ID = ID t, Name = VLANInput.Name input, VlanID = VLANInput.VlanID input,
                         Subnet = VLANInput.Subnet input, Gateway = VLANInput.Gateway input,
                         Status = VLANInput.Status input, CreatedAt = CreatedAt t,
                         UpdatedAt = now\<rparr> # post\<rparr>)\<rparr>)
               else (Inl ErrStorageIO, s))"
    using assms
    by (simp add: Update_def loadData_def saveData_def Update_body_found [OF b] del: set_append)
qed

theorem Update_behaviour_witness:
  "Update 999 \<lparr>VLANInput.Name = ''Updated'', VlanID = 100, Subnet = ''192.168.100.0/24'',
               Gateway = ''192.168.100.1'', Status = ''maintenance''\<rparr> 9
     \<lparr>contents = Some \<lparr>VLANs =
        [\<lparr>ID = 1, Name = ''Test'', VlanID = 100, Subnet = ''192.168.100.0/24'',
          Gateway = ''192.168.100.1'', Status = ''active'', CreatedAt = 1, UpdatedAt = 1\<rparr>,
         \<lparr>ID = 2, Name = ''Second'', VlanID = 200, Subnet = ''192.168.200.0/24'',
          Gateway = ''192.168.200.1'', Status = ''active'', CreatedAt = 2, UpdatedAt = 2\<rparr>]\<rparr>,
      writable = True\<rparr>
   = (Inl ErrVLANNotFound,
      \<lparr>contents = Some \<lparr>VLANs =
        [\<lparr>ID = 1, Name = ''Test'', VlanID = 100, Subnet = ''192.168.100.0/24'',
          Gateway = ''192.168.100.1'', Status = ''active'', CreatedAt = 1, UpdatedAt = 1\<rparr>,
         \<lparr>ID = 2, Name = ''Second'', VlanID = 200, Subnet = ''192.168.200.0/24'',
          Gateway = ''192.168.200.1'', Status = ''active'', CreatedAt = 2, UpdatedAt = 2\<rparr>]\<rparr>,
      writable = True\<rparr>)
   \<and> Update 1 \<lparr>VLANInput.Name = ''Updated'', VlanID = 100, Subnet = ''192.168.100.0/24'',
               Gateway = ''192.168.100.1'', Status = ''maintenance''\<rparr> 9
     \<lparr>contents = Some \<lparr>VLANs =
        [\<lparr>ID = 1, Name = ''Test'', VlanID = 100, Subnet = ''192.168.100.0/24'',
          Gateway = ''192.168.100.1'', Status = ''active'', CreatedAt = 1, UpdatedAt = 1\<rparr>,
         \<lparr>ID = 2, Name = ''Second'', VlanID = 200, Subnet = ''192.168.200.0/24'',
          Gateway = ''192.168.200.1'', Status = ''active'', CreatedAt = 2, UpdatedAt = 2\<rparr>]\<rparr>,
      writable = True\<rparr>
   = (Inr \<lparr>ID = 1, Name = ''Updated'', VlanID = 100, Subnet = ''192.168.100.0/24'',
           Gateway = ''192.168.100.1'', Status = ''maintenance'', CreatedAt = 1, UpdatedAt = 9\<rparr>,
      \<lparr>contents = Some \<lparr>VLANs =
        [\<lparr>ID = 1, Name = ''Updated'', VlanID = 100, Subnet = ''192.168.100.0/24'',
           Gateway = ''192.168.100.1'', Status = ''maintenance'', CreatedAt = 1, UpdatedAt = 9\<rparr>,
         \<lparr>ID = 2, Name = ''Second'', VlanID = 200, Subnet = ''192.168.200.0/24'',
          Gateway = ''192.168.200.1'', Status = ''active'', CreatedAt = 2, UpdatedAt = 2\<rparr>]\<rparr>,
      writable = True\<rparr>)"
  using Update_behaviour
    [where s = "\<lparr>contents = Some \<lparr>VLANs =
        [\<lparr>ID = 1, Name = ''Test'', VlanID = 100, Subnet = ''192.168.100.0/24'',
          Gateway = ''192.168.100.1'', Status = ''active'', CreatedAt = 1, UpdatedAt = 1\<rparr>,
         \<lparr>ID = 2, Name = ''Second'', VlanID = 200, Subnet = ''192.168.200.0/24'',
          Gateway = ''192.168.200.1'', Status = ''active'', CreatedAt = 2, UpdatedAt = 2\<rparr>]\<rparr>,
      writable = True\<rparr>"
     and data = "\<lparr>VLANs =
        [\<lparr>ID = 1, Name = ''Test'', VlanID = 100, Subnet = ''192.168.100.0/24'',
          Gateway = ''192.168.100.1'', Status = ''active'', CreatedAt = 1, UpdatedAt = 1\<rparr>,
         \<lparr>ID = 2, Name = ''Second'', VlanID = 200, Subnet = ''192.168.200.0/24'',
          Gateway = ''192.168.200.1'', Status = ''active'', CreatedAt = 2, UpdatedAt = 2\<rparr>]\<rparr>"
     and id' = 999
     and input = "\<lparr>VLANInput.Name = ''Updated'', VlanID = 100, Subnet = ''192.168.100.0/24'',
               Gateway = ''192.168.100.1'', Status = ''maintenance''\<rparr>"
     and now = 9]
    Update_behaviour
    [where s = "\<lparr>contents = Some \<lparr>VLANs =
        [\<lparr>ID = 1, Name = ''Test'', VlanID = 100, Subnet = ''192.168.100.0/24'',
          Gateway = ''192.168.100.1'', Status = ''active'', CreatedAt = 1, UpdatedAt = 1\<rparr>,
         \<lparr>ID = 2, Name = ''Second'', VlanID = 200, Subnet = ''192.168.200.0/24'',
          Gateway = ''192.168.200.1'', Status = ''active'', CreatedAt = 2, UpdatedAt = 2\<rparr>]\<rparr>,
      writable = True\<rparr>"
     and data = "\<lparr>VLANs =
        [\<lparr>ID = 1, Name = ''Test'', VlanID = 100, Subnet = ''192.168.100.0/24'',
          Gateway = ''192.168.100.1'', Status = ''active'', CreatedAt = 1, UpdatedAt = 1\<rparr>,
         \<lparr>ID = 2, Name = ''Second'', VlanID = 200, Subnet = ''192.168.200.0/24'',
          Gateway = ''192.168.200.1'', Status = ''active'', CreatedAt = 2, UpdatedAt = 2\<rparr>]\<rparr>"
     and id' = 1
     and input = "\<lparr>VLANInput.Name = ''Updated'', VlanID = 100, Subnet = ''192.168.100.0/24'',
               Gateway = ''192.168.100.1'', Status = ''maintenance''\<rparr>"
     and now = 9]
  by (simp add: Update_def loadData_def saveData_def Update_body_def Let_def)

section \<open>Delete\<close>

text \<open>
  C5. The claim reads: for every dataset, including the empty one, \<open>Delete\<close> fails
  with \<open>ErrVLANNotFound\<close> if no record has the ID, and otherwise removes exactly the
  record with that ID, the others keeping their order. On the empty dataset the
  code does not reach its \<^verbatim>\<open>found\<close> test: the allocation of the new slice with
  capacity \<^verbatim>\<open>len(data.VLANs)-1\<close>, that is \<open>-1\<close>, panics. On a dataset with at least
  one record the code does what the claim says (lemma \<open>Delete_nonempty\<close>).
\<close>

theorem Delete_empty_panics:
  "Delete id' \<lparr>contents = Some \<lparr>VLANs = []\<rparr>, writable = w\<rparr>
   = (Some PanicMakeslice, \<lparr>contents = Some \<lparr>VLANs = []\<rparr>, writable = w\<rparr>)"
  by (simp add: Delete_def loadData_def Delete_body_def)

section \<open>Create followed by GetByID\<close>

text \<open>
  C9 as the code has it. The claim reads: whenever \<open>Create\<close> succeeds and returns a
  record with ID \<open>n\<close>, a following \<open>GetByID n\<close> returns that record. \<open>GetByID\<close>
  returns the first record with the ID, and the new ID is \<^verbatim>\<open>maxID + 1\<close> in Go's
  \<^verbatim>\<open>int\<close>: when the largest existing ID is the largest \<^verbatim>\<open>int\<close> the sum wraps
  around to the smallest one, which an existing record may already carry.
\<close>

theorem Create_then_GetByID_counterexample:
  "Create \<lparr>VLANInput.Name = ''C'', VlanID = 3, Subnet = ''10.0.0.0/8'',
           Gateway = ''10.0.0.1'', Status = ''active''\<rparr> 7
     \<lparr>contents = Some \<lparr>VLANs =
        [\<lparr>ID = - 0x8000000000000000, Name = ''A'', VlanID = 1, Subnet = ''10.0.0.0/8'',
          Gateway = ''10.0.0.1'', Status = ''active'', CreatedAt = 1, UpdatedAt = 1\<rparr>,
         \<lparr>ID = 0x7FFFFFFFFFFFFFFF, Name = ''B'', VlanID = 2, Subnet = ''10.0.0.0/8'',
          Gateway = ''10.0.0.1'', Status = ''active'', CreatedAt = 2, UpdatedAt = 2\<rparr>]\<rparr>,
      writable = True\<rparr>
   = (Inr \<lparr>ID = - 0x8000000000000000, Name = ''C'', VlanID = 3, Subnet = ''10.0.0.0/8'',
           Gateway = ''10.0.0.1'', Status = ''active'', CreatedAt = 7, UpdatedAt = 7\<rparr>,
      \<lparr>contents = Some \<lparr>VLANs =
        [\<lparr>ID = - 0x8000000000000000, Name = ''A'', VlanID = 1, Subnet = ''10.0.0.0/8'',
          Gateway = ''10.0.0.1'', Status = ''active'', CreatedAt = 1, UpdatedAt = 1\<rparr>,
         \<lparr>ID = 0x7FFFFFFFFFFFFFFF, Name = ''B'', VlanID = 2, Subnet = ''10.0.0.0/8'',
          Gateway = ''10.0.0.1'', Status = ''active'', CreatedAt = 2, UpdatedAt = 2\<rparr>,
         \<lparr>ID = - 0x8000000000000000, Name = ''C'', VlanID = 3, Subnet = ''10.0.0.0/8'',
           Gateway = ''10.0.0.1'', Status = ''active'', CreatedAt = 7, UpdatedAt = 7\<rparr>]\<rparr>,
      writable = True\<rparr>)
   \<and> GetByID (- 0x8000000000000000)
      \<lparr>contents = Some \<lparr>VLANs =
        [\<lparr>ID = - 0x8000000000000000, Name = ''A'', VlanID = 1, Subnet = ''10.0.0.0/8'',
          Gateway = ''10.0.0.1'', Status = ''active'', CreatedAt = 1, UpdatedAt = 1\<rparr>,
         \<lparr>ID = 0x7FFFFFFFFFFFFFFF, Name = ''B'', VlanID = 2, Subnet = ''10.0.0.0/8'',
          Gateway = ''10.0.0.1'', Status = ''active'', CreatedAt = 2, UpdatedAt = 2\<rparr>,
         \<lparr>ID = - 0x8000000000000000, Name = ''C'', VlanID = 3, Subnet = ''10.0.0.0/8'',
           Gateway = ''10.0.0.1'', Status = ''active'', CreatedAt = 7, UpdatedAt = 7\<rparr>]\<rparr>,
      writable = True\<rparr>
   = Inr \<lparr>ID = - 0x8000000000000000, Name = ''A'', VlanID = 1, Subnet = ''10.0.0.0/8'',
          Gateway = ''10.0.0.1'', Status = ''active'', CreatedAt = 1, UpdatedAt = 1\<rparr>"
  by (simp add: Create_def loadData_def saveData_def Create_body_def GetByID_def
      newID_of_def maxID_loop_def Let_def word_sless_alt)

text \<open>
  C9, amended. For every dataset and every input on which \<open>Create\<close> succeeds
  returning a record with ID \<open>n\<close>: if no record of the dataset already has the ID
  \<open>n\<close>, an immediately following \<open>GetByID n\<close> succeeds and returns a record equal to
  the one \<open>Create\<close> returned; and no record already has the ID \<open>n\<close> whenever the
  dataset is empty or its largest ID is below the largest \<^verbatim>\<open>int\<close>.
\<close>

theorem Create_then_GetByID:
  assumes "contents s = Some data" and "Create input now s = (Inr newVLAN, s')"
  shows "((\<forall>vlan \<in> set (VLANs data). ID vlan \<noteq> ID newVLAN) \<longrightarrow>
            GetByID (ID newVLAN) s' = Inr newVLAN) \<and>
         (VLANs data = [] \<or> Max (sint ` ID ` set (VLANs data)) < 2^63 - 1 \<longrightarrow>
            (\<forall>vlan \<in> set (VLANs data). ID vlan \<noteq> ID newVLAN))"
proof (intro conjI impI)
  assume "\<forall>vlan \<in> set (VLANs data). ID vlan \<noteq> ID newVLAN"
  then have "find (\<lambda>vlan. ID vlan = ID newVLAN) (VLANs data @ [newVLAN]) = Some newVLAN"
    by (intro find_append_last) simp_all
  then show "GetByID (ID newVLAN) s' = Inr newVLAN"
    using Create_Inr_D [OF assms] by (simp add: GetByID_def loadData_def)
next
  assume "VLANs data = [] \<or> Max (sint ` ID ` set (VLANs data)) < 2^63 - 1"
  then show "\<forall>vlan \<in> set (VLANs data). ID vlan \<noteq> ID newVLAN"
    using Create_Inr_D [OF assms] newID_of_fresh [of "VLANs data"] by auto
qed

theorem Create_then_GetByID_witness:
  "GetByID 2
     \<lparr>contents = Some \<lparr>VLANs =
        [\<lparr>ID = 1, Name = ''A'', VlanID = 10, Subnet = ''10.1.0.0/16'',
          Gateway = ''10.1.0.1'', Status = ''active'', CreatedAt = 1, UpdatedAt = 1\<rparr>,
         \<lparr>ID = 2, Name = ''B'', VlanID = 20, Subnet = ''10.2.0.0/16'',
          Gateway = ''10.2.0.1'', Status = ''active'', CreatedAt = 7, UpdatedAt = 7\<rparr>]\<rparr>,
      writable = True\<rparr>
   = Inr \<lparr>ID = 2, Name = ''B'', VlanID = 20, Subnet = ''10.2.0.0/16'',
          Gateway = ''10.2.0.1'', Status = ''active'', CreatedAt = 7, UpdatedAt = 7\<rparr>"
proof -
  let ?A = "\<lparr>ID = 1, Name = ''A'', VlanID = 10, Subnet = ''10.1.0.0/16'',
          Gateway = ''10.1.0.1'', Status = ''active'', CreatedAt = 1, UpdatedAt = 1\<rparr>"
  let ?B = "\<lparr>ID = 2, Name = ''B'', VlanID = 20, Subnet = ''10.2.0.0/16'',
          Gateway = ''10.2.0.1'', Status = ''active'', CreatedAt = 7, UpdatedAt = 7\<rparr>"
  let ?s = "\<lparr>contents = Some \<lparr>VLANs = [?A]\<rparr>, writable = True\<rparr>"
  let ?s' = "\<lparr>contents = Some \<lparr>VLANs = [?A, ?B]\<rparr>, writable = True\<rparr>"
  let ?input = "\<lparr>VLANInput.Name = ''B'', VlanID = 20, Subnet = ''10.2.0.0/16'',
          Gateway = ''10.2.0.1'', Status = ''active''\<rparr>"
  have c: "contents ?s = Some \<lparr>VLANs = [?A]\<rparr>" by simp
  have cr: "Create ?input 7 ?s = (Inr ?B, ?s')"
    by (simp add: Create_def loadData_def saveData_def Create_body_def
        newID_of_def maxID_loop_def Let_def word_sless_alt)
  have fresh: "\<forall>vlan \<in> set (VLANs \<lparr>VLANs = [?A]\<rparr>). ID vlan \<noteq> ID ?B" by simp
  from Create_then_GetByID [OF c cr] fresh show ?thesis by simp
qed

section \<open>Properties of the validation\<close>

subsection \<open>Splitting a text and reading decimal digits\<close>

lemma Split_not_Nil: "Split s sep \<noteq> []"
  by (induction s) (auto split: list.splits)

lemma Split_single: "Split s sep = [x] \<Longrightarrow> s = x \<and> sep \<notin> set x"
proof (induction s arbitrary: x)
  case Nil
  then show ?case by simp
next
  case (Cons c cs)
  show ?case
  proof (cases "c = sep")
    case True
    with Cons.prems show ?thesis by (simp add: Split_not_Nil)
  next
    case False
    with Cons.prems obtain p where "Split cs sep = [p]" "x = c # p"
      by (auto simp: Split_not_Nil split: list.splits)
    with Cons.IH False show ?thesis by simp
  qed
qed

lemma Split_more:
  "Split s sep = x # y # ys \<Longrightarrow>
   \<exists>rest. s = x @ sep # rest \<and> sep \<notin> set x \<and> Split rest sep = y # ys"
proof (induction s arbitrary: x)
  case Nil
  then show ?case by simp
next
  case (Cons c cs)
  show ?case
  proof (cases "c = sep")
    case True
    with Cons.prems show ?thesis by auto
  next
    case False
    with Cons.prems obtain p where p: "Split cs sep = p # y # ys" "x = c # p"
      by (auto split: list.splits)
    from Cons.IH [OF p(1)] obtain rest where
      "cs = p @ sep # rest" "sep \<notin> set p" "Split rest sep = y # ys" by blast
    with p False show ?thesis by auto
  qed
qed

lemma Split_four:
  assumes "length (Split s sep) = 4"
  shows "\<exists>a b c d. Split s sep = [a, b, c, d] \<and> s = a @ sep # b @ sep # c @ sep # d"
proof -
  from assms obtain a b c d where abcd: "Split s sep = [a, b, c, d]"
    by (auto simp: length_Suc_conv numeral_eq_Suc)
  from Split_more [OF abcd] obtain r1 where r1: "s = a @ sep # r1" "Split r1 sep = [b, c, d]"
    by blast
  from Split_more [OF r1(2)] obtain r2 where r2: "r1 = b @ sep # r2" "Split r2 sep = [c, d]"
    by blast
  from Split_more [OF r2(2)] obtain r3 where r3: "r2 = c @ sep # r3" "Split r3 sep = [d]"
    by blast
  from Split_single [OF r3(2)] have "r3 = d" by simp
  with abcd r1 r2 r3 show ?thesis by simp
qed

lemma dec_Cons: "foldl (\<lambda>n c. n * 10 + digit_val c) n ds
    = n * 10 ^ length ds + foldl (\<lambda>n c. n * 10 + digit_val c) 0 ds"
proof (induction ds arbitrary: n)
  case Nil
  show ?case by simp
next
  case (Cons d ds)
  show ?case
    using Cons [of "n * 10 + digit_val d"] Cons [of "digit_val d"]
    by (simp add: algebra_simps)
qed

lemma dec_lower: "dec (c # cs) \<ge> digit_val c * 10 ^ length cs"
  using dec_Cons [of "digit_val c" cs] by (simp add: dec_def)

lemma digit_val_pos: "is_digit c \<Longrightarrow> c \<noteq> CHR ''0'' \<Longrightarrow> 1 \<le> digit_val c"
proof -
  assume d: "is_digit c" and nz: "c \<noteq> CHR ''0''"
  from nz have "of_char c \<noteq> (of_char CHR ''0'' :: nat)"
    by (simp only: of_char_eq_iff not_False_eq_True)
  then have "of_char c \<noteq> (48::nat)" by simp
  with d show ?thesis unfolding is_digit_def digit_val_def by linarith
qed

lemma octet_ok_length:
  assumes "octet_ok g"
  shows "length g \<le> 3"
proof (rule ccontr)
  assume "\<not> length g \<le> 3"
  then have len: "length g \<ge> 4" by simp
  then obtain c cs where g: "g = c # cs" and lcs: "length cs \<ge> 3"
    by (cases g) auto
  from assms g len have "is_digit c" "c \<noteq> CHR ''0''" "dec g \<le> 255"
    by (auto simp: octet_ok_def)
  then have "1 \<le> digit_val c" by (intro digit_val_pos)
  then have m: "1 * (10::nat) ^ length cs \<le> digit_val c * 10 ^ length cs"
    by (intro mult_le_mono1)
  have "(1000::nat) = 10 ^ 3" by simp
  also have "\<dots> \<le> 10 ^ length cs"
    using lcs by (intro power_increasing) simp_all
  also have "\<dots> \<le> digit_val c * 10 ^ length cs" using m by simp
  also have "\<dots> \<le> dec g" using dec_lower [of c cs] g by simp
  finally have "1000 \<le> dec g" .
  with \<open>dec g \<le> 255\<close> show False by simp
qed

subsection \<open>The language of the pattern of isValidIP\<close>

lemma re_digit_iff: "r \<in> set (re_digit s) \<longleftrightarrow> (\<exists>c. s = c # r \<and> is_digit c)"
  by (auto simp: re_digit_def split: list.splits)

lemma re_lit_iff: "r \<in> set (re_lit a s) \<longleftrightarrow> s = a # r"
  by (auto simp: re_lit_def split: list.splits)

lemma re_seq_iff: "r \<in> set (re_seq r1 r2 s) \<longleftrightarrow> (\<exists>m. m \<in> set (r1 s) \<and> r \<in> set (r2 m))"
  by (auto simp: re_seq_def)

lemma re_times_Suc_iff:
  "r \<in> set (re_times (Suc n) p s) \<longleftrightarrow> (\<exists>m \<in> set (p s). r \<in> set (re_times n p m))"
  by auto

lemma digits13_cases:
  "digits13 w \<longleftrightarrow>
     (\<exists>a. w = [a] \<and> is_digit a) \<or>
     (\<exists>a b. w = [a, b] \<and> is_digit a \<and> is_digit b) \<or>
     (\<exists>a b c. w = [a, b, c] \<and> is_digit a \<and> is_digit b \<and> is_digit c)"
proof
  assume d: "digits13 w"
  then obtain a w1 where w: "w = a # w1" by (cases w) (auto simp: digits13_def)
  show "(\<exists>a. w = [a] \<and> is_digit a) \<or>
     (\<exists>a b. w = [a, b] \<and> is_digit a \<and> is_digit b) \<or>
     (\<exists>a b c. w = [a, b, c] \<and> is_digit a \<and> is_digit b \<and> is_digit c)"
  proof (cases w1)
    case Nil
    with d w show ?thesis by (simp add: digits13_def)
  next
    case (Cons b w2)
    show ?thesis
    proof (cases w2)
      case Nil
      with d w Cons show ?thesis by (simp add: digits13_def)
    next
      case (Cons c w3)
      with d w \<open>w1 = b # w2\<close> have "w3 = []" by (simp add: digits13_def)
      with d w \<open>w1 = b # w2\<close> Cons show ?thesis by (simp add: digits13_def)
    qed
  qed
next
  assume "(\<exists>a. w = [a] \<and> is_digit a) \<or>
     (\<exists>a b. w = [a, b] \<and> is_digit a \<and> is_digit b) \<or>
     (\<exists>a b c. w = [a, b, c] \<and> is_digit a \<and> is_digit b \<and> is_digit c)"
  then show "digits13 w" by (auto simp: digits13_def)
qed

lemma re_times1_iff: "r \<in> set (re_times 1 p s) \<longleftrightarrow> r \<in> set (p s)"
  by simp

lemma re_times2_iff:
  "r \<in> set (re_times 2 p s) \<longleftrightarrow> (\<exists>m. m \<in> set (p s) \<and> r \<in> set (p m))"
  by (auto simp: numeral_2_eq_2)

lemma re_times3_iff:
  "r \<in> set (re_times 3 p s) \<longleftrightarrow>
   (\<exists>m1 m2. m1 \<in> set (p s) \<and> m2 \<in> set (p m1) \<and> r \<in> set (p m2))"
  by (auto simp: numeral_3_eq_3)

lemma re_range_1_3_iff:
  "r \<in> set (re_range 1 3 p s) \<longleftrightarrow>
   r \<in> set (re_times 1 p s) \<or> r \<in> set (re_times 2 p s) \<or> r \<in> set (re_times 3 p s)"
proof -
  have up: "[1..<Suc 3] = [1, 2, 3]" by (simp add: upt_rec)
  show ?thesis unfolding re_range_def up by simp
qed

lemma re_range_digits_iff:
  "r \<in> set (re_range 1 3 re_digit s) \<longleftrightarrow> (\<exists>w. s = w @ r \<and> digits13 w)"
proof -
  have "r \<in> set (re_range 1 3 re_digit s) \<longleftrightarrow>
        (\<exists>a. s = a # r \<and> is_digit a) \<or>
        (\<exists>a b. s = a # b # r \<and> is_digit a \<and> is_digit b) \<or>
        (\<exists>a b c. s = a # b # c # r \<and> is_digit a \<and> is_digit b \<and> is_digit c)"
    unfolding re_range_1_3_iff re_times1_iff re_times2_iff re_times3_iff re_digit_iff
    by blast
  also have "\<dots> \<longleftrightarrow> (\<exists>w. s = w @ r \<and> digits13 w)"
  proof
    assume "(\<exists>a. s = a # r \<and> is_digit a) \<or>
        (\<exists>a b. s = a # b # r \<and> is_digit a \<and> is_digit b) \<or>
        (\<exists>a b c. s = a # b # c # r \<and> is_digit a \<and> is_digit b \<and> is_digit c)"
    then consider a where "s = [a] @ r" "is_digit a"
      | a b where "s = [a, b] @ r" "is_digit a" "is_digit b"
      | a b c where "s = [a, b, c] @ r" "is_digit a" "is_digit b" "is_digit c"
      by auto
    then show "\<exists>w. s = w @ r \<and> digits13 w"
    proof cases
      case 1
      then have "digits13 [a]" by (simp add: digits13_def)
      with 1 show ?thesis by blast
    next
      case 2
      then have "digits13 [a, b]" by (simp add: digits13_def)
      with 2 show ?thesis by blast
    next
      case 3
      then have "digits13 [a, b, c]" by (simp add: digits13_def)
      with 3 show ?thesis by blast
    qed
  next
    assume "\<exists>w. s = w @ r \<and> digits13 w"
    then obtain w where w: "s = w @ r" "digits13 w" by blast
    from w(2) show "(\<exists>a. s = a # r \<and> is_digit a) \<or>
        (\<exists>a b. s = a # b # r \<and> is_digit a \<and> is_digit b) \<or>
        (\<exists>a b c. s = a # b # c # r \<and> is_digit a \<and> is_digit b \<and> is_digit c)"
      unfolding digits13_cases using w(1) by auto
  qed
  finally show ?thesis .
qed

lemma group_iff:
  "r \<in> set (re_seq (re_range 1 3 re_digit) (re_lit CHR ''.'') s) \<longleftrightarrow>
   (\<exists>w. s = w @ CHR ''.'' # r \<and> digits13 w)"
  unfolding re_seq_iff re_range_digits_iff re_lit_iff by simp

lemma three_groups_iff:
  "r \<in> set (re_times 3 (re_seq (re_range 1 3 re_digit) (re_lit CHR ''.'')) s) \<longleftrightarrow>
      (\<exists>a b c. s = a @ CHR ''.'' # b @ CHR ''.'' # c @ CHR ''.'' # r \<and>
         digits13 a \<and> digits13 b \<and> digits13 c)"
proof
  assume "r \<in> set (re_times 3 (re_seq (re_range 1 3 re_digit) (re_lit CHR ''.'')) s)"
  then obtain m1 m2 a b c where
    "s = a @ CHR ''.'' # m1" "digits13 a" "m1 = b @ CHR ''.'' # m2" "digits13 b"
    "m2 = c @ CHR ''.'' # r" "digits13 c"
    unfolding re_times3_iff group_iff by blast
  then show "\<exists>a b c. s = a @ CHR ''.'' # b @ CHR ''.'' # c @ CHR ''.'' # r \<and>
         digits13 a \<and> digits13 b \<and> digits13 c"
    by blast
next
  assume "\<exists>a b c. s = a @ CHR ''.'' # b @ CHR ''.'' # c @ CHR ''.'' # r \<and>
         digits13 a \<and> digits13 b \<and> digits13 c"
  then obtain a b c where s: "s = a @ CHR ''.'' # b @ CHR ''.'' # c @ CHR ''.'' # r"
    and d: "digits13 a" "digits13 b" "digits13 c" by blast
  let ?g = "re_seq (re_range 1 3 re_digit) (re_lit CHR ''.'')"
  have 1: "b @ CHR ''.'' # c @ CHR ''.'' # r \<in> set (?g s)"
    unfolding group_iff using s d(1) by blast
  have 2: "c @ CHR ''.'' # r \<in> set (?g (b @ CHR ''.'' # c @ CHR ''.'' # r))"
    unfolding group_iff using d(2) by blast
  have 3: "r \<in> set (?g (c @ CHR ''.'' # r))"
    unfolding group_iff using d(3) by blast
  from 1 2 3 show "r \<in> set (re_times 3 ?g s)"
    unfolding re_times3_iff by blast
qed

lemma MatchString_ipRegex_iff:
  "MatchString ipRegex s \<longleftrightarrow>
   (\<exists>a b c d. s = a @ CHR ''.'' # b @ CHR ''.'' # c @ CHR ''.'' # d \<and>
      digits13 a \<and> digits13 b \<and> digits13 c \<and> digits13 d)"
proof
  assume "MatchString ipRegex s"
  then obtain m d where "m \<in> set (re_times 3 (re_seq (re_range 1 3 re_digit) (re_lit CHR ''.'')) s)"
    and "m = d @ []" and "digits13 d"
    unfolding MatchString_def ipRegex_def re_seq_iff re_range_digits_iff by blast
  then show "\<exists>a b c d. s = a @ CHR ''.'' # b @ CHR ''.'' # c @ CHR ''.'' # d \<and>
      digits13 a \<and> digits13 b \<and> digits13 c \<and> digits13 d"
    unfolding three_groups_iff by auto
next
  assume "\<exists>a b c d. s = a @ CHR ''.'' # b @ CHR ''.'' # c @ CHR ''.'' # d \<and>
      digits13 a \<and> digits13 b \<and> digits13 c \<and> digits13 d"
  then obtain a b c d where s: "s = a @ CHR ''.'' # b @ CHR ''.'' # c @ CHR ''.'' # d"
    and d: "digits13 a" "digits13 b" "digits13 c" "digits13 d" by blast
  have 1: "d \<in> set (re_times 3 (re_seq (re_range 1 3 re_digit) (re_lit CHR ''.'')) s)"
    unfolding three_groups_iff using s d by blast
  have 2: "[] \<in> set (re_range 1 3 re_digit d)"
    unfolding re_range_digits_iff using d(4) by simp
  from 1 2 show "MatchString ipRegex s"
    unfolding MatchString_def ipRegex_def re_seq_iff by blast
qed

subsection \<open>isValidIP is the IPv4 parser\<close>

lemma is_digit_not_special:
  "is_digit c \<Longrightarrow> c \<noteq> CHR ''.'' \<and> c \<noteq> CHR '':'' \<and> c \<noteq> CHR ''%''"
  by (auto simp: is_digit_def)

lemma ParseAddr_scan_digits_dots:
  assumes "\<forall>c \<in> set t. is_digit c \<or> c = CHR ''.''"
  shows "ParseAddr_scan s t =
           (if CHR ''.'' \<in> set t \<and> parseIPv4 s then Some IPv4 else None)"
  using assms
proof (induction t)
  case Nil
  show ?case by simp
next
  case (Cons c t)
  show ?case
  proof (cases "c = CHR ''.''")
    case True
    then show ?thesis by simp
  next
    case False
    with Cons.prems have "is_digit c" by simp
    then have "c \<noteq> CHR ''.'' \<and> c \<noteq> CHR '':'' \<and> c \<noteq> CHR ''%''"
      by (rule is_digit_not_special)
    with Cons show ?thesis by auto
  qed
qed

lemma digits13_chars: "digits13 w \<Longrightarrow> \<forall>c \<in> set w. is_digit c"
  by (simp add: digits13_def list_all_iff)

lemma MatchString_ipRegex_chars:
  assumes "MatchString ipRegex s"
  shows "\<forall>c \<in> set s. is_digit c \<or> c = CHR ''.''"
proof -
  from assms obtain a b c d where s: "s = a @ CHR ''.'' # b @ CHR ''.'' # c @ CHR ''.'' # d"
    and d: "digits13 a" "digits13 b" "digits13 c" "digits13 d"
    unfolding MatchString_ipRegex_iff by blast
  from d have "\<forall>x \<in> set a \<union> set b \<union> set c \<union> set d. is_digit x"
    using digits13_chars by blast
  with s show ?thesis by auto
qed

lemma octet_ok_digits13: "octet_ok g \<Longrightarrow> digits13 g"
  using octet_ok_length [of g] by (simp add: octet_ok_def digits13_def)

lemma parseIPv4_MatchString:
  assumes "parseIPv4 s"
  shows "MatchString ipRegex s"
proof -
  from assms have len: "length (Split s CHR ''.'') = 4" and ok: "list_all octet_ok (Split s CHR ''.'')"
    by (simp_all add: parseIPv4_def)
  from Split_four [OF len] obtain a b c d where
    sp: "Split s CHR ''.'' = [a, b, c, d]" and s: "s = a @ CHR ''.'' # b @ CHR ''.'' # c @ CHR ''.'' # d"
    by blast
  from ok sp have "digits13 a" "digits13 b" "digits13 c" "digits13 d"
    by (simp_all add: octet_ok_digits13)
  with s show ?thesis unfolding MatchString_ipRegex_iff by blast
qed

lemma isValidIP_parseIPv4: "isValidIP ip = parseIPv4 ip"
proof (cases "MatchString ipRegex ip")
  case False
  then have "\<not> parseIPv4 ip" using parseIPv4_MatchString by blast
  with False show ?thesis by (simp add: isValidIP_def)
next
  case True
  then have chars: "\<forall>c \<in> set ip. is_digit c \<or> c = CHR ''.''"
    by (rule MatchString_ipRegex_chars)
  from True have "CHR ''.'' \<in> set ip" unfolding MatchString_ipRegex_iff by auto
  with True ParseAddr_scan_digits_dots [OF chars, of ip] show ?thesis
    by (simp add: isValidIP_def ParseIP_def ParseAddr_def)
qed

subsection \<open>Evaluating the checks on concrete texts\<close>

lemma re_times_numeral:
  "re_times (numeral k) r s = concat (map (re_times (pred_numeral k) r) (r s))"
  by (simp add: numeral_eq_Suc)

lemma re_range_1_3:
  "re_range (Suc 0) 3 r s = re_times 1 r s @ re_times 2 r s @ re_times 3 r s"
  by (simp add: re_range_def upt_rec numeral_2_eq_2 numeral_3_eq_3)

lemmas parse_simps =
  isValidCIDR_def ParseCIDR_def ParseAddr_def ParseIP_def parseIPv6_def parseIPv4_def
  octet_ok_def dtoi_def dec_def is_digit_def digit_val_def is_hex_def hex_val_def BitLen_def
  isValidIP_def MatchString_def ipRegex_def re_seq_def re_range_1_3 re_times_numeral
  re_digit_def re_lit_def Let_def

text \<open>The tables of \<^verbatim>\<open>TestCIDRValidation\<close> and \<^verbatim>\<open>TestIPValidation\<close> of the repository.\<close>

lemma isValidCIDR_tests:
  "isValidCIDR ''192.168.1.0/24''" "isValidCIDR ''10.0.0.0/8''" "isValidCIDR ''172.16.0.0/16''"
  "isValidCIDR ''192.168.1.0/32''" "isValidCIDR ''192.168.1.0/0''"
  "\<not> isValidCIDR ''192.168.1.0''" "\<not> isValidCIDR ''192.168.1.0/''"
  "\<not> isValidCIDR ''192.168.1.0/33''" "\<not> isValidCIDR ''not-a-cidr''" "\<not> isValidCIDR ''''"
  by (simp_all add: parse_simps)

lemma isValidIP_tests:
  "isValidIP ''192.168.1.1''" "isValidIP ''10.0.0.1''" "isValidIP ''172.16.0.1''"
  "isValidIP ''255.255.255.255''" "isValidIP ''0.0.0.0''"
  "\<not> isValidIP ''192.168.1''" "\<not> isValidIP ''192.168.1.1.1''" "\<not> isValidIP ''256.1.1.1''"
  "\<not> isValidIP ''1.256.1.1''" "\<not> isValidIP ''1.1.256.1''" "\<not> isValidIP ''1.1.1.256''"
  "\<not> isValidIP ''not-an-ip''" "\<not> isValidIP ''''"
  by (simp_all add: parse_simps)

subsection \<open>The rules of the specification and the tests of the code\<close>

lemma status_rule_map_index: "map_index validStatuses st \<longleftrightarrow> st \<in> {''active'', ''inactive'', ''maintenance''}"
  by (simp add: map_index_def validStatuses_def)

lemma vlanTag_rule_code:
  "vlanTag_rule v \<longleftrightarrow> \<not> (VLANInput.VlanID v <s 1 \<or> 4094 <s VLANInput.VlanID v)"
  by (auto simp: vlanTag_rule_def word_sless_alt)

lemma name_rule_code:
  "name_rule v \<longleftrightarrow> \<not> (VLANInput.Name v = [] \<or> length (VLANInput.Name v) > 255)"
  by (cases "VLANInput.Name v") (auto simp: name_rule_def)

lemma octet_ok_numeric_group:
  "octet_ok g \<longleftrightarrow> numeric_group g \<and> (length g = 1 \<or> hd g \<noteq> CHR ''0'')"
  by (cases g) (auto simp: octet_ok_def numeric_group_def)

section \<open>The order of the validation rules\<close>

text \<open>
  C6. \<open>Validate\<close> checks the five rules in the fixed order name length, tag range,
  subnet format, gateway format, status membership, and stops at the first failure:
  it returns the error of the first rule of that list that the input violates, and
  success exactly when the input satisfies all five. Each error is returned exactly
  when its rule is violated and every earlier rule holds.
\<close>

theorem Validate_first_violation:
  "Validate v = first_violation validation_rules v \<and>
   (Validate v = None \<longleftrightarrow>
      name_rule v \<and> vlanTag_rule v \<and> subnet_rule v \<and> gateway_rule v \<and> status_rule v) \<and>
   (Validate v = Some InvalidName \<longleftrightarrow> \<not> name_rule v) \<and>
   (Validate v = Some InvalidVlanTag \<longleftrightarrow> name_rule v \<and> \<not> vlanTag_rule v) \<and>
   (Validate v = Some InvalidSubnet \<longleftrightarrow> name_rule v \<and> vlanTag_rule v \<and> \<not> subnet_rule v) \<and>
   (Validate v = Some InvalidGateway \<longleftrightarrow>
      name_rule v \<and> vlanTag_rule v \<and> subnet_rule v \<and> \<not> gateway_rule v) \<and>
   (Validate v = Some InvalidStatus \<longleftrightarrow>
      name_rule v \<and> vlanTag_rule v \<and> subnet_rule v \<and> gateway_rule v \<and> \<not> status_rule v)"
proof -
  have V: "Validate v =
     (if \<not> name_rule v then Some InvalidName
      else if \<not> vlanTag_rule v then Some InvalidVlanTag
      else if \<not> subnet_rule v then Some InvalidSubnet
      else if \<not> gateway_rule v then Some InvalidGateway
      else if \<not> status_rule v then Some InvalidStatus
      else None)"
    unfolding name_rule_code vlanTag_rule_code subnet_rule_def gateway_rule_def
      status_rule_def status_rule_map_index [symmetric] Validate_def
    by simp
  show ?thesis unfolding V by (simp add: validation_rules_def)
qed

theorem Validate_first_violation_witness:
  "Validate \<lparr>VLANInput.Name = '''', VlanID = 0, Subnet = ''192.168.1.0'',
             Gateway = ''192.168.1.256'', Status = ''unknown''\<rparr> = Some InvalidName \<and>
   Validate \<lparr>VLANInput.Name = ''Test'', VlanID = 100, Subnet = ''192.168.1.0'',
             Gateway = ''192.168.1.256'', Status = ''unknown''\<rparr> = Some InvalidSubnet \<and>
   Validate \<lparr>VLANInput.Name = ''Production'', VlanID = 100, Subnet = ''192.168.1.0/24'',
             Gateway = ''192.168.1.1'', Status = ''active''\<rparr> = None"
  using Validate_first_violation
      [of "\<lparr>VLANInput.Name = '''', VlanID = 0, Subnet = ''192.168.1.0'',
             Gateway = ''192.168.1.256'', Status = ''unknown''\<rparr>"]
    Validate_first_violation
      [of "\<lparr>VLANInput.Name = ''Test'', VlanID = 100, Subnet = ''192.168.1.0'',
             Gateway = ''192.168.1.256'', Status = ''unknown''\<rparr>"]
    Validate_first_violation
      [of "\<lparr>VLANInput.Name = ''Production'', VlanID = 100, Subnet = ''192.168.1.0/24'',
             Gateway = ''192.168.1.1'', Status = ''active''\<rparr>"]
  by (simp add: Validate_def parse_simps map_index_def validStatuses_def word_sless_alt
      validation_rules_def name_rule_def vlanTag_rule_def subnet_rule_def gateway_rule_def
      status_rule_def)

section \<open>The subnet check\<close>

text \<open>
  C7. The claim reads: the subnet check accepts exactly an IPv4 dotted-decimal
  address followed by \<^verbatim>\<open>/\<close> and a prefix length from 0 to 32, and rejects every
  other text, a non-IPv4 address among them. \<^verbatim>\<open>isValidCIDR\<close> is \<^verbatim>\<open>net.ParseCIDR\<close>
  alone, which also parses IPv6 prefixes: the text \<^verbatim>\<open>2001:db8::/32\<close> passes the
  check, and an input with that subnet passes \<open>Validate\<close>.
\<close>

theorem isValidCIDR_accepts_IPv6:
  "isValidCIDR ''2001:db8::/32'' \<and>
   Validate \<lparr>VLANInput.Name = ''Test'', VlanID = 100, Subnet = ''2001:db8::/32'',
             Gateway = ''192.168.1.1'', Status = ''active''\<rparr> = None"
  by (simp add: Validate_def parse_simps map_index_def validStatuses_def word_sless_alt)

section \<open>The gateway check\<close>

text \<open>
  C8 as the code has it. The claim reads: the gateway check accepts exactly the
  texts of four dot-separated all-numeric groups, each parsing as an integer from 0
  to 255. The IPv4 parser of the library refuses a group with a leading zero, so a
  text such as \<^verbatim>\<open>192.168.01.1\<close>, whose groups are numeric and in range, is rejected:
\<close>

theorem isValidIP_counterexample:
  "gateway_claim ''192.168.01.1'' \<and> \<not> isValidIP ''192.168.01.1''"
  by (simp add: gateway_claim_def numeric_group_def parse_simps)

text \<open>
  C8, amended. The gateway check accepts exactly the texts of four dot-separated
  all-numeric groups, each parsing as an integer from 0 to 255 and written without
  a leading zero (a group is a single digit or does not start with \<^verbatim>\<open>0\<close>); every
  accepted group has at most three digits. Every other text, among them one with
  an out-of-range group or with more or fewer than four groups, is rejected.
\<close>

theorem isValidIP_characterisation:
  "(isValidIP ip \<longleftrightarrow>
      gateway_claim ip \<and> (\<forall>g \<in> set (Split ip CHR ''.''). length g = 1 \<or> hd g \<noteq> CHR ''0'')) \<and>
   (isValidIP ip \<longrightarrow> (\<forall>g \<in> set (Split ip CHR ''.''). length g \<le> 3))"
proof -
  have "isValidIP ip \<longleftrightarrow>
      length (Split ip CHR ''.'') = 4 \<and> (\<forall>g \<in> set (Split ip CHR ''.''). octet_ok g)"
    by (simp add: isValidIP_parseIPv4 parseIPv4_def list_all_iff)
  then show ?thesis
    using octet_ok_length
    by (auto simp: gateway_claim_def list_all_iff octet_ok_numeric_group)
qed

theorem isValidIP_characterisation_witness:
  "isValidIP ''192.168.1.1'' \<and> gateway_claim ''192.168.1.1'' \<and>
   \<not> isValidIP ''192.168.1.256'' \<and> \<not> gateway_claim ''192.168.1.256''"
  using isValidIP_characterisation [of "''192.168.1.1''"]
    isValidIP_characterisation [of "''192.168.1.256''"]
  by (simp add: gateway_claim_def numeric_group_def parse_simps)

section \<open>Properties of the handlers\<close>

text \<open>The table of \<^verbatim>\<open>TestExtractIDFromPath\<close> of the repository.\<close>

lemma extractIDFromPath_tests:
  "extractIDFromPath ''/api/v1/vlans/1'' = Inr 1"
  "extractIDFromPath ''/api/v1/vlans/100'' = Inr 100"
  "extractIDFromPath ''/api/v1/vlans/4094'' = Inr 4094"
  "extractIDFromPath ''/api/v1/vlans/0'' = Inl ''ID must be between 1 and 4094''"
  "extractIDFromPath ''/api/v1/vlans/4095'' = Inl ''ID must be between 1 and 4094''"
  "extractIDFromPath ''/api/v1/vlans/abc'' = Inl ''invalid ID format''"
  "extractIDFromPath ''/api/v1/'' = Inl ''invalid path''"
  "extractIDFromPath ''/api/v1/vlans/'' = Inl ''invalid ID format''"
  by (simp_all add: extractIDFromPath_def TrimPrefix_slash_def Atoi_def dec_def digit_val_def
      is_digit_def word_sless_alt Let_def)

lemma extractIDFromPath_range:
  assumes "extractIDFromPath path = Inr id'"
  shows "1 \<le> sint id' \<and> sint id' \<le> 4094"
  using assms
  by (auto simp: extractIDFromPath_def Let_def word_sless_alt split: if_splits option.splits)

lemma GetByID_Inr_D:
  assumes "GetByID id' s = Inr vlan"
  shows "ID vlan = id'"
  using assms
  by (auto simp: GetByID_def loadData_def find_Some_iff split: option.splits sum.splits)

lemma index_of_ID_Some_split:
  "index_of_ID id' vs = Some i \<Longrightarrow>
   \<exists>pre t post. vs = pre @ t # post \<and> (\<forall>v \<in> set pre. ID v \<noteq> id') \<and> ID t = id'"
proof (induction vs arbitrary: i)
  case Nil
  then show ?case by simp
next
  case (Cons v vs)
  show ?case
  proof (cases "ID v = id'")
    case True
    then have "v # vs = [] @ v # vs \<and> (\<forall>x \<in> set []. ID x \<noteq> id') \<and> ID v = id'" by simp
    then show ?thesis by blast
  next
    case False
    with Cons.prems obtain j where "index_of_ID id' vs = Some j" by auto
    from Cons.IH [OF this] obtain pre t post where
      "vs = pre @ t # post" "\<forall>x \<in> set pre. ID x \<noteq> id'" "ID t = id'" by blast
    with False have "v # vs = (v # pre) @ t # post \<and> (\<forall>x \<in> set (v # pre). ID x \<noteq> id') \<and> ID t = id'"
      by simp
    then show ?thesis by blast
  qed
qed

lemma Update_keeps_other_ids:
  assumes "contents s = Some data"
  shows "\<exists>data'. contents (snd (Update id' input now s)) = Some data' \<and>
           filter (\<lambda>v. ID v \<noteq> id') (VLANs data') = filter (\<lambda>v. ID v \<noteq> id') (VLANs data)"
proof (cases "index_of_ID id' (VLANs data)")
  case None
  then have "Update id' input now s = (Inl ErrVLANNotFound, s)"
    using assms by (simp add: index_of_ID_None Update_not_found)
  with assms show ?thesis by simp
next
  case (Some i)
  from index_of_ID_Some_split [OF Some] obtain pre t post where
    b: "VLANs data = pre @ t # post" "\<forall>v \<in> set pre. ID v \<noteq> id'" "ID t = id'" by blast
  show ?thesis
    using assms b(1) b(3)
    by (simp add: Update_def loadData_def saveData_def Update_body_found [OF b] del: set_append)
qed

lemma Delete_keeps_other_ids:
  assumes "contents s = Some data"
  shows "\<exists>data'. contents (snd (Delete id' s)) = Some data' \<and>
           filter (\<lambda>v. ID v \<noteq> id') (VLANs data') = filter (\<lambda>v. ID v \<noteq> id') (VLANs data)"
  using assms
  by (simp add: Delete_def loadData_def saveData_def Delete_body_def Let_def)

lemma filter_filter_imp:
  assumes "\<And>v. P v \<Longrightarrow> Q v" and "filter Q xs = filter Q ys"
  shows "filter P xs = filter P ys"
proof -
  have narrow: "filter P (filter Q zs) = filter P zs" for zs
    by (induction zs) (auto simp: assms(1))
  have "filter P xs = filter P (filter Q xs)" by (simp only: narrow)
  also have "\<dots> = filter P (filter Q ys)" by (simp only: assms(2))
  also have "\<dots> = filter P ys" by (simp only: narrow)
  finally show ?thesis .
qed

lemma UpdateVLAN_snd:
  "snd (UpdateVLAN r now s) = s \<or>
   (\<exists>id' input. extractIDFromPath (Path r) = Inr id' \<and> snd (UpdateVLAN r now s) = snd (Update id' input now s))"
  by (auto simp: UpdateVLAN_def split: sum.splits option.splits prod.splits) (metis snd_conv)+

lemma DeleteVLAN_snd:
  "snd (DeleteVLAN r now s) = s \<or>
   (\<exists>id'. extractIDFromPath (Path r) = Inr id' \<and> snd (DeleteVLAN r now s) = snd (Delete id' s))"
  by (auto simp: DeleteVLAN_def split: sum.splits option.splits prod.splits)

lemma GetVLAN_200_D:
  assumes "fst (GetVLAN r now s) = Response 200 (VLANJSON vlan)"
  shows "\<exists>id'. extractIDFromPath (Path r) = Inr id' \<and> GetByID id' s = Inr vlan"
  using assms
  by (auto simp: GetVLAN_def sendErrorResponse_def sendJSONResponse_def
      split: sum.splits if_splits)

text \<open>Below \<^verbatim>\<open>/api/v1/vlans/\<close> the router hands the request to the per-record handlers.\<close>

lemma VLANHandler_per_record:
  assumes "HasPrefix (Path r) ''/api/v1/vlans/''"
  shows "VLANHandler r now s =
           (if Method r = ''GET'' then GetVLAN r now s
            else if Method r = ''PUT'' then UpdateVLAN r now s
            else if Method r = ''DELETE'' then DeleteVLAN r now s
            else (sendErrorResponse 405 ''Method not allowed'' now, s))"
proof -
  from assms have "length (Path r) \<ge> 14"
    by (auto simp: HasPrefix_def dest!: arg_cong [where f = length])
  then have "Path r \<noteq> ''/api/v1/vlans''" by auto
  with assms show ?thesis by (simp add: VLANHandler_def)
qed

section \<open>The ID range of the per-record handlers\<close>

text \<open>
  C10. For every path given to the per-record handlers \<open>GetVLAN\<close>, \<open>UpdateVLAN\<close>
  and \<open>DeleteVLAN\<close>, the ID that \<open>extractIDFromPath\<close> accepts lies between 1 and
  4094; an ID outside that range is rejected with the error
  \<^verbatim>\<open>ID must be between 1 and 4094\<close>; on every error of \<open>extractIDFromPath\<close> the
  handler answers 400 whatever the state of the file, which it leaves as it was
  (the storage is not called). So \<open>GetVLAN\<close> never returns a record whose ID is
  outside the range, and \<open>UpdateVLAN\<close> and \<open>DeleteVLAN\<close> leave the records whose ID is
  outside the range exactly as they were, in their order; although \<open>Create\<close> does
  assign such IDs: after a record with ID 4094 it assigns 4095.
\<close>

theorem per_record_handlers_id_range:
  "(\<forall>id'. extractIDFromPath (Path r) = Inr id' \<longrightarrow> 1 \<le> sint id' \<and> sint id' \<le> 4094) \<and>
   (\<forall>id'. 4 \<le> length (Split (TrimPrefix_slash (Path r)) CHR ''/'') \<and>
          Atoi (Split (TrimPrefix_slash (Path r)) CHR ''/'' ! 3) = Some id' \<and>
          \<not> (1 \<le> sint id' \<and> sint id' \<le> 4094) \<longrightarrow>
          extractIDFromPath (Path r) = Inl ''ID must be between 1 and 4094'') \<and>
   (\<forall>err. extractIDFromPath (Path r) = Inl err \<longrightarrow>
      (Method r = ''GET'' \<longrightarrow> GetVLAN r now s = (sendErrorResponse 400 err now, s)) \<and>
      (Method r = ''PUT'' \<longrightarrow> UpdateVLAN r now s = (sendErrorResponse 400 err now, s)) \<and>
      (Method r = ''DELETE'' \<longrightarrow> DeleteVLAN r now s = (sendErrorResponse 400 err now, s))) \<and>
   (\<forall>vlan. fst (GetVLAN r now s) = Response 200 (VLANJSON vlan) \<longrightarrow>
      1 \<le> sint (ID vlan) \<and> sint (ID vlan) \<le> 4094) \<and>
   (\<forall>data. contents s = Some data \<longrightarrow>
      (\<exists>data'. contents (snd (UpdateVLAN r now s)) = Some data' \<and>
         filter (\<lambda>v. \<not> (1 \<le> sint (ID v) \<and> sint (ID v) \<le> 4094)) (VLANs data') =
         filter (\<lambda>v. \<not> (1 \<le> sint (ID v) \<and> sint (ID v) \<le> 4094)) (VLANs data)) \<and>
      (\<exists>data'. contents (snd (DeleteVLAN r now s)) = Some data' \<and>
         filter (\<lambda>v. \<not> (1 \<le> sint (ID v) \<and> sint (ID v) \<le> 4094)) (VLANs data') =
         filter (\<lambda>v. \<not> (1 \<le> sint (ID v) \<and> sint (ID v) \<le> 4094)) (VLANs data))) \<and>
   Create \<lparr>VLANInput.Name = ''B'', VlanID = 7, Subnet = ''10.0.0.0/8'',
           Gateway = ''10.0.0.1'', Status = ''active''\<rparr> 9
     \<lparr>contents = Some \<lparr>VLANs =
        [\<lparr>ID = 4094, Name = ''A'', VlanID = 5, Subnet = ''10.0.0.0/8'',
          Gateway = ''10.0.0.1'', Status = ''active'', CreatedAt = 1, UpdatedAt = 1\<rparr>]\<rparr>,
      writable = True\<rparr>
   = (Inr \<lparr>ID = 4095, Name = ''B'', VlanID = 7, Subnet = ''10.0.0.0/8'',
           Gateway = ''10.0.0.1'', Status = ''active'', CreatedAt = 9, UpdatedAt = 9\<rparr>,
      \<lparr>contents = Some \<lparr>VLANs =
        [\<lparr>ID = 4094, Name = ''A'', VlanID = 5, Subnet = ''10.0.0.0/8'',
          Gateway = ''10.0.0.1'', Status = ''active'', CreatedAt = 1, UpdatedAt = 1\<rparr>,
         \<lparr>ID = 4095, Name = ''B'', VlanID = 7, Subnet = ''10.0.0.0/8'',
           Gateway = ''10.0.0.1'', Status = ''active'', CreatedAt = 9, UpdatedAt = 9\<rparr>]\<rparr>,
      writable = True\<rparr>)"
  (is "?range \<and> ?reject \<and> ?early \<and> ?get \<and> ?keep \<and> ?create")
proof (intro conjI)
  show ?range using extractIDFromPath_range by blast
next
  show ?reject
    by (auto simp: extractIDFromPath_def Let_def word_sless_alt)
next
  show ?early
    by (simp add: GetVLAN_def UpdateVLAN_def DeleteVLAN_def)
next
  show ?get
  proof (intro allI impI)
    fix vlan assume "fst (GetVLAN r now s) = Response 200 (VLANJSON vlan)"
    from GetVLAN_200_D [OF this] obtain id' where
      "extractIDFromPath (Path r) = Inr id'" "GetByID id' s = Inr vlan" by blast
    then show "1 \<le> sint (ID vlan) \<and> sint (ID vlan) \<le> 4094"
      using extractIDFromPath_range [of "Path r" id'] GetByID_Inr_D [of id' s vlan] by simp
  qed
next
  show ?keep
  proof (intro allI impI conjI)
    fix data assume c: "contents s = Some data"
    let ?out = "\<lambda>v. \<not> (1 \<le> sint (ID v) \<and> sint (ID v) \<le> 4094)"
    from UpdateVLAN_snd [of r now s]
    show "\<exists>data'. contents (snd (UpdateVLAN r now s)) = Some data' \<and>
            filter ?out (VLANs data') = filter ?out (VLANs data)"
    proof
      assume "snd (UpdateVLAN r now s) = s"
      with c show ?thesis by simp
    next
      assume "\<exists>id' input. extractIDFromPath (Path r) = Inr id' \<and>
                snd (UpdateVLAN r now s) = snd (Update id' input now s)"
      then obtain id' input where e: "extractIDFromPath (Path r) = Inr id'"
        and u: "snd (UpdateVLAN r now s) = snd (Update id' input now s)" by blast
      from Update_keeps_other_ids [OF c, of id' input now] obtain data' where
        d: "contents (snd (Update id' input now s)) = Some data'"
          "filter (\<lambda>v. ID v \<noteq> id') (VLANs data') = filter (\<lambda>v. ID v \<noteq> id') (VLANs data)"
        by blast
      have "?out v \<Longrightarrow> ID v \<noteq> id'" for v
        using extractIDFromPath_range [OF e] by auto
      then have "filter ?out (VLANs data') = filter ?out (VLANs data)"
        using d(2) by (rule filter_filter_imp)
      with d(1) u show ?thesis by simp
    qed
    from DeleteVLAN_snd [of r now s]
    show "\<exists>data'. contents (snd (DeleteVLAN r now s)) = Some data' \<and>
            filter ?out (VLANs data') = filter ?out (VLANs data)"
    proof
      assume "snd (DeleteVLAN r now s) = s"
      with c show ?thesis by simp
    next
      assume "\<exists>id'. extractIDFromPath (Path r) = Inr id' \<and>
                snd (DeleteVLAN r now s) = snd (Delete id' s)"
      then obtain id' where e: "extractIDFromPath (Path r) = Inr id'"
        and u: "snd (DeleteVLAN r now s) = snd (Delete id' s)" by blast
      from Delete_keeps_other_ids [OF c, of id'] obtain data' where
        d: "contents (snd (Delete id' s)) = Some data'"
          "filter (\<lambda>v. ID v \<noteq> id') (VLANs data') = filter (\<lambda>v. ID v \<noteq> id') (VLANs data)"
        by blast
      have "?out v \<Longrightarrow> ID v \<noteq> id'" for v
        using extractIDFromPath_range [OF e] by auto
      then have "filter ?out (VLANs data') = filter ?out (VLANs data)"
        using d(2) by (rule filter_filter_imp)
      with d(1) u show ?thesis by simp
    qed
  qed
next
  show ?create
    by (simp add: Create_def loadData_def saveData_def Create_body_def
        newID_of_def maxID_loop_def Let_def word_sless_alt)
qed

theorem per_record_handlers_id_range_witness:
  "extractIDFromPath ''/api/v1/vlans/4094'' = Inr 4094 \<and>
   GetVLAN \<lparr>Method = ''GET'', Path = ''/api/v1/vlans/4095'', Body = None\<rparr> 9
     \<lparr>contents = Some \<lparr>VLANs =
        [\<lparr>ID = 4095, Name = ''B'', VlanID = 7, Subnet = ''10.0.0.0/8'',
          Gateway = ''10.0.0.1'', Status = ''active'', CreatedAt = 1, UpdatedAt = 1\<rparr>]\<rparr>,
      writable = True\<rparr>
   = (Response 400 (ErrorJSON \<lparr>Error = ''ID must be between 1 and 4094'', Timestamp = 9\<rparr>),
      \<lparr>contents = Some \<lparr>VLANs =
        [\<lparr>ID = 4095, Name = ''B'', VlanID = 7, Subnet = ''10.0.0.0/8'',
          Gateway = ''10.0.0.1'', Status = ''active'', CreatedAt = 1, UpdatedAt = 1\<rparr>]\<rparr>,
      writable = True\<rparr>) \<and>
   DeleteVLAN \<lparr>Method = ''DELETE'', Path = ''/api/v1/vlans/4094'', Body = None\<rparr> 9
     \<lparr>contents = Some \<lparr>VLANs =
        [\<lparr>ID = 4094, Name = ''A'', VlanID = 5, Subnet = ''10.0.0.0/8'',
          Gateway = ''10.0.0.1'', Status = ''active'', CreatedAt = 1, UpdatedAt = 1\<rparr>,
         \<lparr>ID = 4095, Name = ''B'', VlanID = 7, Subnet = ''10.0.0.0/8'',
          Gateway = ''10.0.0.1'', Status = ''active'', CreatedAt = 1, UpdatedAt = 1\<rparr>]\<rparr>,
      writable = True\<rparr>
   = (Response 204 NoContent,
      \<lparr>contents = Some \<lparr>VLANs =
        [\<lparr>ID = 4095, Name = ''B'', VlanID = 7, Subnet = ''10.0.0.0/8'',
          Gateway = ''10.0.0.1'', Status = ''active'', CreatedAt = 1, UpdatedAt = 1\<rparr>]\<rparr>,
      writable = True\<rparr>)"
  using per_record_handlers_id_range
    [where r = "\<lparr>Method = ''GET'', Path = ''/api/v1/vlans/4095'', Body = None\<rparr>" and now = 9
       and s = "\<lparr>contents = Some \<lparr>VLANs =
        [\<lparr>ID = 4095, Name = ''B'', VlanID = 7, Subnet = ''10.0.0.0/8'',
          Gateway = ''10.0.0.1'', Status = ''active'', CreatedAt = 1, UpdatedAt = 1\<rparr>]\<rparr>,
      writable = True\<rparr>"]
    per_record_handlers_id_range
    [where r = "\<lparr>Method = ''DELETE'', Path = ''/api/v1/vlans/4094'', Body = None\<rparr>" and now = 9
       and s = "\<lparr>contents = Some \<lparr>VLANs =
        [\<lparr>ID = 4094, Name = ''A'', VlanID = 5, Subnet = ''10.0.0.0/8'',
          Gateway = ''10.0.0.1'', Status = ''active'', CreatedAt = 1, UpdatedAt = 1\<rparr>,
         \<lparr>ID = 4095, Name = ''B'', VlanID = 7, Subnet = ''10.0.0.0/8'',
          Gateway = ''10.0.0.1'', Status = ''active'', CreatedAt = 1, UpdatedAt = 1\<rparr>]\<rparr>,
      writable = True\<rparr>"]
  by (simp add: GetVLAN_def DeleteVLAN_def sendErrorResponse_def extractIDFromPath_def
      TrimPrefix_slash_def Atoi_def dec_def digit_val_def is_digit_def word_sless_alt Let_def
      Delete_def loadData_def saveData_def Delete_body_def)


section \<open>Properties of the lock\<close>

lemma length_filter_update:
  assumes "i < length xs"
  shows "length (filter P (xs[i := y])) + (if P (xs ! i) then 1 else 0)
         = length (filter P xs) + (if P y then 1 else 0)"
  using assms
proof (induction xs arbitrary: i)
  case Nil
  then show ?case by simp
next
  case (Cons x xs)
  show ?case
  proof (cases i)
    case 0
    then show ?thesis by simp
  next
    case (Suc j)
    with Cons.prems have "j < length xs" by simp
    from Cons.IH [OF this] Suc show ?thesis by simp
  qed
qed

lemma filter_pos:
  assumes "i < length xs" and "P (xs ! i)"
  shows "0 < length (filter P xs)"
proof -
  from assms have "xs ! i \<in> set (filter P xs)" by simp
  then show ?thesis by (cases "filter P xs") auto
qed

lemma thread_step_cases:
  assumes "thread_step t m s = (t', m', s')"
  shows
   "(t' = t \<and> m' = m \<and> s' = s) \<or>
    (\<not> holds_read t \<and> \<not> holds_write t \<and> holds_read t' \<and> \<not> holds_write t' \<and>
       \<not> writer m \<and> m' = m\<lparr>readers := readers m + 1\<rparr> \<and> s' = s) \<or>
    (holds_read t \<and> \<not> holds_write t \<and> \<not> holds_read t' \<and> \<not> holds_write t' \<and>
       m' = m\<lparr>readers := readers m - 1\<rparr> \<and> s' = s) \<or>
    (\<not> holds_read t \<and> \<not> holds_write t \<and> \<not> holds_read t' \<and> \<not> holds_write t' \<and>
       m' = m \<and> s' = s) \<or>
    (\<not> holds_read t \<and> \<not> holds_write t \<and> \<not> holds_read t' \<and> holds_write t' \<and>
       \<not> writer m \<and> readers m = 0 \<and> m' = m\<lparr>writer := True\<rparr> \<and> s' = s) \<or>
    (\<not> holds_read t \<and> holds_write t \<and> \<not> holds_read t' \<and> \<not> holds_write t' \<and>
       m' = m\<lparr>writer := False\<rparr>)"
  using assms
  by (cases t) (auto simp: thread_step_def split: sum.splits option.splits if_splits prod.splits)

lemma step_lock_inv:
  assumes "lock_inv c"
  shows "lock_inv (step i c)"
proof (cases "i < length (threads c)")
  case False
  with assms show ?thesis by (simp add: step_def)
next
  case True
  obtain t' m' s' where ts: "thread_step (threads c ! i) (mu c) (disk c) = (t', m', s')"
    by (cases "thread_step (threads c ! i) (mu c) (disk c)") auto
  have st: "step i c = \<lparr>mu = m', disk = s', threads = (threads c)[i := t']\<rparr>"
    using True ts by (simp add: step_def)
  note R = length_filter_update [OF True, of holds_read t']
  note W = length_filter_update [OF True, of holds_write t']
  note Rpos = filter_pos [OF True, of holds_read]
  note Wpos = filter_pos [OF True, of holds_write]
  from thread_step_cases [OF ts] show ?thesis
    unfolding st lock_inv_def
    using assms R W Rpos Wpos
    by (auto simp: lock_inv_def split: if_splits)
qed

lemma run_lock_inv: "lock_inv c \<Longrightarrow> lock_inv (run schedule c)"
  unfolding run_def
  by (induction schedule arbitrary: c) (simp_all add: step_lock_inv)

lemma filter_map_Ready:
  "filter holds_read (map Ready ops) = []" "filter holds_write (map Ready ops) = []"
  by (induction ops) simp_all

lemma start_lock_inv: "lock_inv (start s ops)"
  by (simp add: start_def lock_inv_def filter_map_Ready)

lemma filter_two:
  assumes "i < j" and "j < length xs" and "P (xs ! i)" and "P (xs ! j)"
  shows "2 \<le> length (filter P xs)"
proof -
  have split: "xs = take j xs @ drop j xs" by simp
  have a: "0 < length (filter P (take j xs))"
    using assms by (intro filter_pos [of i]) simp_all
  have b: "0 < length (filter P (drop j xs))"
    using assms by (intro filter_pos [of 0]) simp_all
  have "length (filter P xs) = length (filter P (take j xs)) + length (filter P (drop j xs))"
    by (subst split) (simp only: filter_append length_append)
  with a b show ?thesis by linarith
qed

lemma lock_inv_exclusion:
  assumes "lock_inv c" and "i < length (threads c)" and "j < length (threads c)" and "i \<noteq> j"
    and "holds_write (threads c ! i)"
  shows "\<not> holds_read (threads c ! j) \<and> \<not> holds_write (threads c ! j)"
proof (intro conjI notI)
  from assms(1,2,5) have w: "writer (mu c)"
    using filter_pos [of i "threads c" holds_write] by (auto simp: lock_inv_def split: if_splits)
  assume "holds_read (threads c ! j)"
  then have "0 < length (filter holds_read (threads c))"
    using assms(3) by (intro filter_pos [of j]) simp_all
  with assms(1) w show False by (simp add: lock_inv_def del: length_greater_0_conv)
next
  assume j: "holds_write (threads c ! j)"
  have "2 \<le> length (filter holds_write (threads c))"
  proof (cases "i < j")
    case True
    then show ?thesis using assms(3,5) j by (intro filter_two [of i j]) simp_all
  next
    case False
    with assms(4) have "j < i" by simp
    then show ?thesis using assms(2,5) j by (intro filter_two [of j i]) simp_all
  qed
  with assms(1) show False by (simp add: lock_inv_def split: if_splits)
qed

lemma call_op_body:
  "call op s =
     (case loadData s of
        Inl err \<Rightarrow> (Inl err, s)
      | Inr data \<Rightarrow>
          (case op_body op data of
             Inl err \<Rightarrow> (Inl err, s)
           | Inr (None, r) \<Rightarrow> (Inr r, s)
           | Inr (Some data', r) \<Rightarrow>
               (case saveData data' s of
                  Inl err \<Rightarrow> (Inl err, s)
                | Inr s' \<Rightarrow> (Inr r, s'))))"
  by (cases op)
    (auto simp: call_def op_body_def GetAll_def GetByID_def Create_def Update_def Delete_def
      split: sum.splits option.splits prod.splits)

lemma run_solo:
  assumes "i < length (threads c)" and "threads c ! i = Ready op"
    and "mu c = \<lparr>readers = 0, writer = False\<rparr>"
  shows "run [i, i, i, i, i] c =
           c\<lparr>disk := snd (call op (disk c)),
             threads := (threads c)[i := Finished (fst (call op (disk c)))]\<rparr>"
  using assms
  by (auto simp: run_def step_def thread_step_def call_op_body
      split: sum.splits option.splits prod.splits)

lemma step_length: "length (threads (step i c)) = length (threads c)"
  by (auto simp: step_def split: prod.splits)

lemma run_length: "length (threads (run schedule c)) = length (threads c)"
  unfolding run_def
  by (induction schedule arbitrary: c) (simp_all add: step_length)

lemma run_append: "run (xs @ ys) c = run ys (run xs c)"
  by (simp add: run_def)

lemma thread_step_simps:
  "thread_step (Ready op) m s =
     (if writer m then (Ready op, m, s) else (InLoad op, m\<lparr>readers := readers m + 1\<rparr>, s))"
  "thread_step (InLoad op) m s =
     (case loadData s of
        Inl err \<Rightarrow> (Finished (Inl err), m\<lparr>readers := readers m - 1\<rparr>, s)
      | Inr data \<Rightarrow> (Loaded op data, m\<lparr>readers := readers m - 1\<rparr>, s))"
  "thread_step (Loaded op data) m s =
     (case op_body op data of
        Inl err \<Rightarrow> (Finished (Inl err), m, s)
      | Inr (None, r) \<Rightarrow> (Finished (Inr r), m, s)
      | Inr (Some data', r) \<Rightarrow> (WaitSave data' r, m, s))"
  "thread_step (WaitSave data' r) m s =
     (if writer m \<or> readers m > 0 then (WaitSave data' r, m, s)
      else (InSave data' r, m\<lparr>writer := True\<rparr>, s))"
  "thread_step (InSave data' r) m s =
     (case saveData data' s of
        Inl err \<Rightarrow> (Finished (Inl err), m\<lparr>writer := False\<rparr>, s)
      | Inr s' \<Rightarrow> (Finished (Inr r), m\<lparr>writer := False\<rparr>, s'))"
  "thread_step (Finished x) m s = (Finished x, m, s)"
  by (simp_all add: thread_step_def)

lemma op_body_Create:
  "op_body (OpCreate input now) data =
     (case Create_body input now data of
        Inl err \<Rightarrow> Inl err
      | Inr (data', newVLAN) \<Rightarrow> Inr (Some data', VLAN newVLAN))"
  by (simp add: op_body_def)

lemma run_Nil: "run [] c = c"
  by (simp add: run_def)

lemma run_Cons: "run (i # schedule) c = run schedule (step i c)"
  by (simp add: run_def)

lemma step_config:
  "step i \<lparr>mu = m, disk = s, threads = ts\<rparr> =
     (if i < length ts
      then (case thread_step (ts ! i) m s of
              (t', m', s') \<Rightarrow> \<lparr>mu = m', disk = s', threads = ts[i := t']\<rparr>)
      else \<lparr>mu = m, disk = s, threads = ts\<rparr>)"
  by (simp add: step_def)

lemmas run_simps =
  run_Nil run_Cons step_config thread_step_simps start_def op_body_Create Create_body_def
  loadData_def saveData_def newID_of_def maxID_loop_def Let_def word_sless_alt


section \<open>The extent of the lock\<close>

text \<open>
  C1 as the code has it. The claim reads: one lock is held for the whole load,
  compute and persist cycle of a call, so that all storage operations are
  serialized and two concurrent \<open>Create\<close> calls never both observe the same next ID
  and persist records with it. In the code the read lock is released when
  \<^verbatim>\<open>loadData\<close> returns and the write lock is taken only inside \<^verbatim>\<open>saveData\<close>. After
  two steps of the first of two \<open>Create\<close> calls on the empty dataset the call has
  loaded the data and the lock is free; and in the schedule where both calls load
  before either saves, both return a record with ID 1, each persists its record,
  and the file keeps the second one only.
\<close>

theorem concurrent_Create_counterexample:
  "run [0, 0]
     (start \<lparr>contents = Some \<lparr>VLANs = []\<rparr>, writable = True\<rparr>
        [OpCreate \<lparr>VLANInput.Name = ''A'', VlanID = 10, Subnet = ''10.1.0.0/16'',
                    Gateway = ''10.1.0.1'', Status = ''active''\<rparr> 1,
         OpCreate \<lparr>VLANInput.Name = ''B'', VlanID = 20, Subnet = ''10.2.0.0/16'',
                    Gateway = ''10.2.0.1'', Status = ''active''\<rparr> 2])
   = \<lparr>mu = \<lparr>readers = 0, writer = False\<rparr>,
      disk = \<lparr>contents = Some \<lparr>VLANs = []\<rparr>, writable = True\<rparr>,
      threads =
        [Loaded (OpCreate \<lparr>VLANInput.Name = ''A'', VlanID = 10, Subnet = ''10.1.0.0/16'',
                            Gateway = ''10.1.0.1'', Status = ''active''\<rparr> 1) \<lparr>VLANs = []\<rparr>,
         Ready (OpCreate \<lparr>VLANInput.Name = ''B'', VlanID = 20, Subnet = ''10.2.0.0/16'',
                           Gateway = ''10.2.0.1'', Status = ''active''\<rparr> 2)]\<rparr>
   \<and>
   run [0, 0, 1, 1, 0, 1, 0, 0, 1, 1]
     (start \<lparr>contents = Some \<lparr>VLANs = []\<rparr>, writable = True\<rparr>
        [OpCreate \<lparr>VLANInput.Name = ''A'', VlanID = 10, Subnet = ''10.1.0.0/16'',
                    Gateway = ''10.1.0.1'', Status = ''active''\<rparr> 1,
         OpCreate \<lparr>VLANInput.Name = ''B'', VlanID = 20, Subnet = ''10.2.0.0/16'',
                    Gateway = ''10.2.0.1'', Status = ''active''\<rparr> 2])
   = \<lparr>mu = \<lparr>readers = 0, writer = False\<rparr>,
      disk = \<lparr>contents = Some \<lparr>VLANs =
               [\<lparr>ID = 1, Name = ''B'', VlanID = 20, Subnet = ''10.2.0.0/16'',
                 Gateway = ''10.2.0.1'', Status = ''active'', CreatedAt = 2, UpdatedAt = 2\<rparr>]\<rparr>,
              writable = True\<rparr>,
      threads =
        [Finished (Inr (VLAN \<lparr>ID = 1, Name = ''A'', VlanID = 10, Subnet = ''10.1.0.0/16'',
                 Gateway = ''10.1.0.1'', Status = ''active'', CreatedAt = 1, UpdatedAt = 1\<rparr>)),
         Finished (Inr (VLAN \<lparr>ID = 1, Name = ''B'', VlanID = 20, Subnet = ''10.2.0.0/16'',
                 Gateway = ''10.2.0.1'', Status = ''active'', CreatedAt = 2, UpdatedAt = 2\<rparr>))]\<rparr>"
  by (simp add: run_simps)

text \<open>
  C1, amended. The lock is held for the duration of each file access only: the
  read lock inside \<^verbatim>\<open>loadData\<close>, the write lock inside \<^verbatim>\<open>saveData\<close>. In every
  interleaving of any number of calls of \<open>GetAll\<close>, \<open>GetByID\<close>, \<open>Create\<close>, \<open>Update\<close>
  and \<open>Delete\<close> the lock counts the calls inside \<^verbatim>\<open>loadData\<close> and is write-locked
  exactly while a call is inside \<^verbatim>\<open>saveData\<close>; while one call is inside \<^verbatim>\<open>saveData\<close>
  no other call is inside \<^verbatim>\<open>loadData\<close> or \<^verbatim>\<open>saveData\<close>; and two calls of which the
  second starts after the first has returned act as the two operations one after
  the other.
\<close>

theorem lock_discipline:
  "lock_inv (run schedule (start s ops)) \<and>
   (\<forall>i j. i < length ops \<and> j < length ops \<and> i \<noteq> j \<and>
          holds_write (threads (run schedule (start s ops)) ! i) \<longrightarrow>
          \<not> holds_read (threads (run schedule (start s ops)) ! j) \<and>
          \<not> holds_write (threads (run schedule (start s ops)) ! j)) \<and>
   run ([0, 0, 0, 0, 0] @ [1, 1, 1, 1, 1]) (start s [op1, op2]) =
     \<lparr>mu = \<lparr>readers = 0, writer = False\<rparr>,
      disk = snd (call op2 (snd (call op1 s))),
      threads = [Finished (fst (call op1 s)), Finished (fst (call op2 (snd (call op1 s))))]\<rparr>"
proof (intro conjI allI impI)
  show inv: "lock_inv (run schedule (start s ops))"
    by (intro run_lock_inv start_lock_inv)
  fix i j
  assume a: "i < length ops \<and> j < length ops \<and> i \<noteq> j \<and>
          holds_write (threads (run schedule (start s ops)) ! i)"
  have len: "length (threads (run schedule (start s ops))) = length ops"
    by (simp add: run_length start_def)
  from lock_inv_exclusion [OF inv, of i j] a len
  show "\<not> holds_read (threads (run schedule (start s ops)) ! j)"
    and "\<not> holds_write (threads (run schedule (start s ops)) ! j)"
    by simp_all
next
  let ?c0 = "start s [op1, op2]"
  have 1: "run [0, 0, 0, 0, 0] ?c0 =
      ?c0\<lparr>disk := snd (call op1 s), threads := [Finished (fst (call op1 s)), Ready op2]\<rparr>"
    using run_solo [of 0 ?c0 op1] by (simp add: start_def)
  let ?c1 = "?c0\<lparr>disk := snd (call op1 s), threads := [Finished (fst (call op1 s)), Ready op2]\<rparr>"
  have 2: "run [1, 1, 1, 1, 1] ?c1 =
      ?c1\<lparr>disk := snd (call op2 (snd (call op1 s))),
          threads := [Finished (fst (call op1 s)), Finished (fst (call op2 (snd (call op1 s))))]\<rparr>"
    using run_solo [of 1 ?c1 op2] by (simp add: start_def)
  show "run ([0, 0, 0, 0, 0] @ [1, 1, 1, 1, 1]) (start s [op1, op2]) =
     \<lparr>mu = \<lparr>readers = 0, writer = False\<rparr>,
      disk = snd (call op2 (snd (call op1 s))),
      threads = [Finished (fst (call op1 s)), Finished (fst (call op2 (snd (call op1 s))))]\<rparr>"
    unfolding run_append 1 2 by (simp add: start_def)
qed

theorem lock_discipline_witness:
  "holds_write (threads (run [0, 0, 0, 0]
     (start \<lparr>contents = Some \<lparr>VLANs = []\<rparr>, writable = True\<rparr>
        [OpCreate \<lparr>VLANInput.Name = ''A'', VlanID = 10, Subnet = ''10.1.0.0/16'',
                    Gateway = ''10.1.0.1'', Status = ''active''\<rparr> 1,
         OpGetAll])) ! 0) \<and>
   \<not> holds_read (threads (run [0, 0, 0, 0]
     (start \<lparr>contents = Some \<lparr>VLANs = []\<rparr>, writable = True\<rparr>
        [OpCreate \<lparr>VLANInput.Name = ''A'', VlanID = 10, Subnet = ''10.1.0.0/16'',
                    Gateway = ''10.1.0.1'', Status = ''active''\<rparr> 1,
         OpGetAll])) ! 1)"
  using lock_discipline
    [where schedule = "[0, 0, 0, 0]"
       and s = "\<lparr>contents = Some \<lparr>VLANs = []\<rparr>, writable = True\<rparr>"
       and ops = "[OpCreate \<lparr>VLANInput.Name = ''A'', VlanID = 10, Subnet = ''10.1.0.0/16'',
                    Gateway = ''10.1.0.1'', Status = ''active''\<rparr> 1, OpGetAll]"]
  by (simp add: run_simps)

end
